theory Spec2Isabelle
  imports
    Complex_Main
    "HOL-Library.Char_ord"
    "HOL-Library.List_Lexorder"
    "HOL-Library.Product_Lexorder"
    "HOL-Library.AList"
begin

section \<open>Values of the Go program\<close>

subsection \<open>Machine integers\<close>

text \<open>
  The counters and bounds of the program are \<open>int64\<close>. They are modelled as \<open>int\<close>,
  and every arithmetic operation of the source is followed by \<open>wrap64\<close>, the
  two's-complement wrap-around of Go.
\<close>

definition wrap64 :: "int \<Rightarrow> int" where
  "wrap64 x = (x + 2 ^ 63) mod 2 ^ 64 - 2 ^ 63"

definition int64 :: "int \<Rightarrow> bool" where
  "int64 x \<longleftrightarrow> - (2 ^ 63) \<le> x \<and> x < 2 ^ 63"

subsection \<open>Scores\<close>

text \<open>
  A \<open>float64\<close> is one of: not-a-number, an infinity, or a finite value. Finite values are
  idealised as rationals: rounding, overflow to infinity and the sign of zero are not
  modelled. No statement below depends on them.
\<close>

datatype float64 = NaN | NegInf | Finite rat | PosInf

fun fadd :: "float64 \<Rightarrow> float64 \<Rightarrow> float64" where
  "fadd NaN _ = NaN"
| "fadd _ NaN = NaN"
| "fadd PosInf NegInf = NaN"
| "fadd NegInf PosInf = NaN"
| "fadd PosInf _ = PosInf"
| "fadd _ PosInf = PosInf"
| "fadd NegInf _ = NegInf"
| "fadd _ NegInf = NegInf"
| "fadd (Finite a) (Finite b) = Finite (a + b)"

fun fmul :: "float64 \<Rightarrow> float64 \<Rightarrow> float64" where
  "fmul (Finite a) (Finite b) = Finite (a * b)"
| "fmul NaN _ = NaN"
| "fmul _ NaN = NaN"
| "fmul (Finite a) PosInf = (if a = 0 then NaN else if 0 < a then PosInf else NegInf)"
| "fmul (Finite a) NegInf = (if a = 0 then NaN else if 0 < a then NegInf else PosInf)"
| "fmul PosInf (Finite b) = (if b = 0 then NaN else if 0 < b then PosInf else NegInf)"
| "fmul NegInf (Finite b) = (if b = 0 then NaN else if 0 < b then NegInf else PosInf)"
| "fmul PosInf PosInf = PosInf"
| "fmul NegInf NegInf = PosInf"
| "fmul PosInf NegInf = NegInf"
| "fmul NegInf PosInf = NegInf"

fun fdiv :: "float64 \<Rightarrow> float64 \<Rightarrow> float64" where
  "fdiv (Finite a) (Finite b) =
     (if b = 0 then (if a = 0 then NaN else if 0 < a then PosInf else NegInf)
      else Finite (a / b))"
| "fdiv NaN _ = NaN"
| "fdiv _ NaN = NaN"
| "fdiv (Finite a) PosInf = Finite 0"
| "fdiv (Finite a) NegInf = Finite 0"
| "fdiv PosInf (Finite b) = (if 0 \<le> b then PosInf else NegInf)"
| "fdiv NegInf (Finite b) = (if 0 \<le> b then NegInf else PosInf)"
| "fdiv PosInf PosInf = NaN"
| "fdiv NegInf NegInf = NaN"
| "fdiv PosInf NegInf = NaN"
| "fdiv NegInf PosInf = NaN"

text \<open>The comparison \<open>a <= b\<close> of Go: false as soon as one side is not a number.\<close>

fun fle :: "float64 \<Rightarrow> float64 \<Rightarrow> bool" where
  "fle NaN _ = False"
| "fle _ NaN = False"
| "fle NegInf _ = True"
| "fle _ PosInf = True"
| "fle PosInf _ = False"
| "fle _ NegInf = False"
| "fle (Finite a) (Finite b) = (a \<le> b)"

text \<open>
  \<open>*big.Float\<close> has the infinities and no not-a-number: \<open>big.NewFloat\<close> panics with
  \<open>ErrNaN\<close> on one. A panic is a value of the model.
\<close>

datatype bigFloat = BigNegInf | BigFinite rat | BigPosInf

datatype panic = ErrNaN | IndexOutOfRange

fun NewFloat :: "float64 \<Rightarrow> panic + bigFloat" where
  "NewFloat NaN = Inl ErrNaN"
| "NewFloat NegInf = Inr BigNegInf"
| "NewFloat (Finite q) = Inr (BigFinite q)"
| "NewFloat PosInf = Inr BigPosInf"

fun Float64 :: "bigFloat \<Rightarrow> float64" where
  "Float64 BigNegInf = NegInf"
| "Float64 (BigFinite q) = Finite q"
| "Float64 BigPosInf = PosInf"

text \<open>
  The score codec \<open>floatToLex\<close> / \<open>lexToFloat\<close> is defined outside the files at hand.
  It is a parameter of every operation that uses it.
\<close>

record codec =
  floatToLex :: "bigFloat \<Rightarrow> string"
  lexToFloat :: "string \<Rightarrow> bigFloat"

subsection \<open>Errors and results\<close>

text \<open>
  An \<open>error\<close> is what the store client returns (the conditional-check failure, or any
  other service error) or what \<open>fmt.Errorf\<close> builds, with its message.
\<close>

datatype error = ConditionalCheckFailedException | ServiceError string | Errorf string

text \<open>
  Modelled from the spec: \<open>conditionFailureError\<close>, defined outside the files at hand,
  recognises the store's ConditionFailed error.
\<close>

fun conditionFailureError :: "error option \<Rightarrow> bool" where
  "conditionFailureError (Some ConditionalCheckFailedException) = True"
| "conditionFailureError _ = False"

text \<open>
  A Go function returns its values together with \<open>err\<close>, or panics. Both values are
  kept, since the source returns partial results beside an error.
\<close>

datatype 'a outcome = Panicked panic | Returned 'a "error option"

section \<open>The store\<close>

text \<open>
  Attribute names are the constants \<open>pk\<close>, \<open>sk\<close>, \<open>sk2\<close> and \<open>skGeoCell\<close> of the
  source. An attribute value is a string (\<open>S\<close>) or a number (\<open>N\<close>); the numbers of the
  program are unsigned cell identifiers, printed with \<open>%d\<close> and read back with
  \<open>ParseUint\<close>, and are modelled by their value.
\<close>

datatype attr = attr_pk | attr_sk | attr_sk2 | attr_skGeoCell

datatype attributeValue = S string | N nat

type_synonym item = "(attr \<times> attributeValue) list"

text \<open>\<open>aws.StringValue(item[a].S)\<close>: the empty string when the attribute is missing.\<close>

definition getS :: "item \<Rightarrow> attr \<Rightarrow> string" where
  "getS it a = (case map_of it a of Some (S x) \<Rightarrow> x | _ \<Rightarrow> [])"

text \<open>
  The number read by \<open>ParseUint\<close> from \<open>aws.StringValue(item[a].N)\<close>: zero when the
  attribute is missing (the parse error is dropped by the source).
\<close>

definition getN :: "item \<Rightarrow> attr \<Rightarrow> nat" where
  "getN it a = (case map_of it a of Some (N n) \<Rightarrow> n | _ \<Rightarrow> 0)"

record keyDef =
  pk :: string
  sk :: string

definition keyDef_toAV :: "keyDef \<Rightarrow> item" where
  "keyDef_toAV k = [(attr_pk, S (pk k)), (attr_sk, S (sk k))]"

text \<open>
  Modelled from the spec: the expression builder, defined outside the files at hand,
  assembles conditions from named-attribute comparisons (equality, BETWEEN, >=, <=,
  exists, not-exists) and updates from assignments. A condition expression is the list of
  its conjuncts, an update expression the list of its SET assignments.
\<close>

datatype cond =
    attribute_not_exists attr
  | attribute_exists attr
  | Equals attr attributeValue
  | Between attr attributeValue attributeValue
  | GreaterEq attr attributeValue
  | LessEq attr attributeValue

record GetItemInput =
  gi_ConsistentRead :: bool
  gi_Key :: item
  gi_ProjectionExpression :: "attr list option"
  gi_TableName :: string

record UpdateItemInput =
  ui_ConditionExpression :: "cond list"
  ui_Key :: item
  ui_TableName :: string
  ui_UpdateExpression :: "(attr \<times> attributeValue) list"

datatype select = SelectAll | SelectCount

record QueryInput =
  q_ConsistentRead :: bool
  q_ExclusiveStartKey :: item
  q_IndexName :: "attr option"
  q_KeyConditionExpression :: "cond list"
  q_Limit :: "int option"
  q_ScanIndexForward :: bool
  q_Select :: select
  q_TableName :: string

record QueryOutput =
  Items :: "item list"
  Count :: int
  LastEvaluatedKey :: item

text \<open>
  The store client: one function per request kind, threading the state of the world
  \<open>'s\<close>. Nothing is assumed about it: it may fail, page as it likes, and change between
  two requests.
\<close>

record 's DynamoDB =
  GetItemRequest :: "GetItemInput \<Rightarrow> 's \<Rightarrow> (error + item) \<times> 's"
  UpdateItemRequest :: "UpdateItemInput \<Rightarrow> 's \<Rightarrow> error option \<times> 's"
  QueryRequest :: "QueryInput \<Rightarrow> 's \<Rightarrow> (error + QueryOutput) \<times> 's"

record 's Client =
  ddbClient :: "'s DynamoDB"
  consistentReads :: bool
  table :: string

text \<open>
  The name of a secondary index is modelled by the attribute it sorts on:
  \<open>lsi_sk2\<close> is \<open>Some attr_sk2\<close>, and \<open>c.getIndex(skGeoCell)\<close> is \<open>Some attr_skGeoCell\<close>.
\<close>

section \<open>Geospatial engine\<close>

record Location =
  Lat :: float64
  Lon :: float64

text \<open>
  The spherical geometry comes from the s2 library: the cell of a position, the centre of
  a cell, the angle between two positions in radians, the cells covering a cap, and the
  range of a cell. They are parameters.
\<close>

record s2 =
  CellIDFromLatLng :: "Location \<Rightarrow> nat"
  CellLatLng :: "nat \<Rightarrow> Location"
  Distance :: "Location \<Rightarrow> Location \<Rightarrow> float64"
  CellUnionBound :: "Location \<Rightarrow> float64 \<Rightarrow> nat list"
  RangeMin :: "nat \<Rightarrow> nat"
  RangeMax :: "nat \<Rightarrow> nat"

definition EarthRadiusMeters :: float64 where
  "EarthRadiusMeters = Finite (6372797560856 / 1000000)"

definition Location_toAV :: "s2 \<Rightarrow> Location \<Rightarrow> attributeValue" where
  "Location_toAV g l = N (CellIDFromLatLng g l)"

definition fromCellIDString :: "s2 \<Rightarrow> nat \<Rightarrow> Location" where
  "fromCellIDString g cellID = CellLatLng g cellID"

text \<open>\<open>type Unit float64\<close>, with \<open>from.To(to, d) = (d / to) * from\<close>.\<close>

type_synonym Unit = float64

definition Unit_To :: "Unit \<Rightarrow> Unit \<Rightarrow> float64 \<Rightarrow> float64" where
  "Unit_To from to d = fmul (fdiv d to) from"

definition Meters :: Unit where "Meters = Finite 1"
definition Kilometers :: Unit where "Kilometers = Finite 1000"
definition Miles :: Unit where "Miles = Finite (160934 / 100)"
definition Feet :: Unit where "Feet = Finite (3048 / 10000)"

definition DistanceTo :: "s2 \<Rightarrow> Location \<Rightarrow> Location \<Rightarrow> Unit \<Rightarrow> float64" where
  "DistanceTo g l other unit = Unit_To Meters unit (fmul (Distance g l other) EarthRadiusMeters)"

text \<open>
  A Go map given as an argument is an association list: the order of the list is the
  order in which \<open>range\<close> happens to visit the map.
\<close>

fun GEOADD_loop ::
  "s2 \<Rightarrow> 's Client \<Rightarrow> string \<Rightarrow> (string \<times> Location) list \<Rightarrow> int \<Rightarrow> 's
     \<Rightarrow> (int \<times> error option) \<times> 's" where
  "GEOADD_loop g c key [] addedCount s = ((addedCount, None), s)"
| "GEOADD_loop g c key ((member, location) # rest) addedCount s =
     (case UpdateItemRequest (ddbClient c)
             \<lparr> ui_ConditionExpression = [],
               ui_Key = keyDef_toAV \<lparr> pk = key, sk = member \<rparr>,
               ui_TableName = table c,
               ui_UpdateExpression = [(attr_skGeoCell, Location_toAV g location)] \<rparr> s of
        (Some err, s') \<Rightarrow> ((addedCount, Some err), s')
      | (None, s') \<Rightarrow> GEOADD_loop g c key rest addedCount s')"

definition GEOADD ::
  "s2 \<Rightarrow> 's Client \<Rightarrow> string \<Rightarrow> (string \<times> Location) list \<Rightarrow> 's
     \<Rightarrow> (int \<times> error option) \<times> 's" where
  "GEOADD g c key members s = GEOADD_loop g c key members 0 s"

type_synonym locationMap = "(string \<times> Location) list"

fun GEOPOS_loop ::
  "s2 \<Rightarrow> 's Client \<Rightarrow> string \<Rightarrow> string list \<Rightarrow> locationMap \<Rightarrow> 's
     \<Rightarrow> (locationMap \<times> error option) \<times> 's" where
  "GEOPOS_loop g c key [] locations s = ((locations, None), s)"
| "GEOPOS_loop g c key (member # rest) locations s =
     (case GetItemRequest (ddbClient c)
             \<lparr> gi_ConsistentRead = consistentReads c,
               gi_Key = keyDef_toAV \<lparr> pk = key, sk = member \<rparr>,
               gi_ProjectionExpression = None,
               gi_TableName = table c \<rparr> s of
        (Inl err, s') \<Rightarrow> ((locations, Some err), s')
      | (Inr it, s') \<Rightarrow>
          GEOPOS_loop g c key rest
            (if it \<noteq> []
             then AList.update member (fromCellIDString g (getN it attr_skGeoCell)) locations
             else locations) s')"

definition GEOPOS ::
  "s2 \<Rightarrow> 's Client \<Rightarrow> string \<Rightarrow> string list \<Rightarrow> 's \<Rightarrow> (locationMap \<times> error option) \<times> 's" where
  "GEOPOS g c key members s = GEOPOS_loop g c key members [] s"

text \<open>\<open>locations[member]\<close>: the zero \<open>Location\<close> when the key is missing.\<close>

definition lookupLocation :: "locationMap \<Rightarrow> string \<Rightarrow> Location" where
  "lookupLocation locations member =
     (case map_of locations member of
        Some l \<Rightarrow> l
      | None \<Rightarrow> \<lparr> Lat = Finite 0, Lon = Finite 0 \<rparr>)"

text \<open>The loop over the items of one page of \<open>GEORADIUS\<close>.\<close>

fun GEORADIUS_items ::
  "s2 \<Rightarrow> Location \<Rightarrow> float64 \<Rightarrow> Unit \<Rightarrow> locationMap \<times> int \<Rightarrow> item list \<Rightarrow> locationMap \<times> int" where
  "GEORADIUS_items g center radius radiusUnit (positions, count) [] = (positions, count)"
| "GEORADIUS_items g center radius radiusUnit (positions, count) (it # items) =
     (if fle (DistanceTo g center (fromCellIDString g (getN it attr_skGeoCell)) radiusUnit) radius
      then GEORADIUS_items g center radius radiusUnit
             (AList.update (getS it attr_sk) (fromCellIDString g (getN it attr_skGeoCell)) positions,
              wrap64 (count - 1)) items
      else GEORADIUS_items g center radius radiusUnit (positions, count) items)"

text \<open>
  The loop \<open>for hasMoreResults && count > 0\<close> over the pages of one cell. Each call is
  one test of the loop condition with \<open>hasMoreResults\<close> true.
\<close>

partial_function (option) GEORADIUS_pages ::
  "s2 \<Rightarrow> 's Client \<Rightarrow> string \<Rightarrow> Location \<Rightarrow> float64 \<Rightarrow> Unit \<Rightarrow> nat
     \<Rightarrow> locationMap \<Rightarrow> int \<Rightarrow> item \<Rightarrow> 's
     \<Rightarrow> (((locationMap \<times> int) \<times> error option) \<times> 's) option" where
  "GEORADIUS_pages g c key center radius radiusUnit cellID positions count cursor s =
     (if count > 0 then
        (case QueryRequest (ddbClient c)
                \<lparr> q_ConsistentRead = consistentReads c,
                  q_ExclusiveStartKey = cursor,
                  q_IndexName = Some attr_skGeoCell,
                  q_KeyConditionExpression =
                    [Equals attr_pk (S key),
                     Between attr_skGeoCell (N (RangeMin g cellID)) (N (RangeMax g cellID))],
                  q_Limit = Some count,
                  q_ScanIndexForward = True,
                  q_Select = SelectAll,
                  q_TableName = table c \<rparr> s of
           (Inl err, s') \<Rightarrow> Some (((positions, count), Some err), s')
         | (Inr resp, s') \<Rightarrow>
             (case GEORADIUS_items g center radius radiusUnit (positions, count) (Items resp) of
                (positions', count') \<Rightarrow>
                  if LastEvaluatedKey resp \<noteq> []
                  then GEORADIUS_pages g c key center radius radiusUnit cellID
                         positions' count' (LastEvaluatedKey resp) s'
                  else Some (((positions', count'), None), s')))
      else Some (((positions, count), None), s))"

declare GEORADIUS_pages.simps [code]

fun GEORADIUS_cells ::
  "s2 \<Rightarrow> 's Client \<Rightarrow> string \<Rightarrow> Location \<Rightarrow> float64 \<Rightarrow> Unit \<Rightarrow> nat list
     \<Rightarrow> locationMap \<Rightarrow> int \<Rightarrow> 's
     \<Rightarrow> ((locationMap \<times> error option) \<times> 's) option" where
  "GEORADIUS_cells g c key center radius radiusUnit [] positions count s =
     Some ((positions, None), s)"
| "GEORADIUS_cells g c key center radius radiusUnit (cellID # cells) positions count s =
     (case GEORADIUS_pages g c key center radius radiusUnit cellID positions count [] s of
        None \<Rightarrow> None
      | Some (((positions', count'), Some err), s') \<Rightarrow> Some ((positions', Some err), s')
      | Some (((positions', count'), None), s') \<Rightarrow>
          GEORADIUS_cells g c key center radius radiusUnit cells positions' count' s')"

definition GEORADIUS ::
  "s2 \<Rightarrow> 's Client \<Rightarrow> string \<Rightarrow> Location \<Rightarrow> float64 \<Rightarrow> Unit \<Rightarrow> int \<Rightarrow> 's
     \<Rightarrow> ((locationMap \<times> error option) \<times> 's) option" where
  "GEORADIUS g c key center radius radiusUnit count s =
     GEORADIUS_cells g c key center radius radiusUnit
       (CellUnionBound g center (fdiv (Unit_To radiusUnit Meters radius) EarthRadiusMeters))
       [] count s"

definition GEORADIUSBYMEMBER ::
  "s2 \<Rightarrow> 's Client \<Rightarrow> string \<Rightarrow> string \<Rightarrow> float64 \<Rightarrow> Unit \<Rightarrow> int \<Rightarrow> 's
     \<Rightarrow> ((locationMap \<times> error option) \<times> 's) option" where
  "GEORADIUSBYMEMBER g c key member radius radiusUnit count s =
     (case GEOPOS g c key [member] s of
        ((locations, Some err), s') \<Rightarrow> Some (([], Some err), s')
      | ((locations, None), s') \<Rightarrow>
          GEORADIUS g c key (lookupLocation locations member) radius radiusUnit count s')"

section \<open>Sorted set engine\<close>

text \<open>
  A Go map built by the program (\<open>map[string]float64\<close>, \<open>map[string]Location\<close>) is an
  association list with one entry per key: \<open>m[k] = v\<close> is \<open>AList.update k v m\<close>. The order
  of the list stands for the order in which \<open>range\<close> visits the map, which Go leaves
  open; it is only observed by \<open>floatValues\<close>.
\<close>

type_synonym floatMap = "(string \<times> float64) list"

text \<open>Modelled from the spec: the write flags "only-if-absent" and "only-if-present".\<close>

datatype Flag = IfNotExists | IfAlreadyExists

type_synonym Flags = "Flag list"

definition has :: "Flags \<Rightarrow> Flag \<Rightarrow> bool" where
  "has flags f \<longleftrightarrow> f \<in> set flags"

text \<open>
  \<open>err\<close> is the named result, assigned by every write: after the loop it is the error of
  the last write, which is a condition failure when that write was skipped for its
  condition.
\<close>

fun ZADD_loop ::
  "codec \<Rightarrow> 's Client \<Rightarrow> string \<Rightarrow> (string \<times> float64) list \<Rightarrow> Flags \<Rightarrow> int
     \<Rightarrow> error option \<Rightarrow> 's \<Rightarrow> int outcome \<times> 's" where
  "ZADD_loop cd c key [] flags savedCount err s = (Returned savedCount err, s)"
| "ZADD_loop cd c key ((member, score) # rest) flags savedCount err s =
     (case NewFloat score of
        Inl p \<Rightarrow> (Panicked p, s)
      | Inr b \<Rightarrow>
          (case UpdateItemRequest (ddbClient c)
                  \<lparr> ui_ConditionExpression =
                      (if has flags IfNotExists then [attribute_not_exists attr_pk] else []) @
                      (if has flags IfAlreadyExists then [attribute_exists attr_pk] else []),
                    ui_Key = keyDef_toAV \<lparr> pk = key, sk = member \<rparr>,
                    ui_TableName = table c,
                    ui_UpdateExpression = [(attr_sk2, S (floatToLex cd b))] \<rparr> s of
             (err', s') \<Rightarrow>
               if conditionFailureError err'
               then ZADD_loop cd c key rest flags savedCount err' s'
               else if err' \<noteq> None then (Returned savedCount err', s')
               else ZADD_loop cd c key rest flags (wrap64 (savedCount + 1)) err' s'))"

definition ZADD ::
  "codec \<Rightarrow> 's Client \<Rightarrow> string \<Rightarrow> (string \<times> float64) list \<Rightarrow> Flags \<Rightarrow> 's
     \<Rightarrow> int outcome \<times> 's" where
  "ZADD cd c key membersWithScores flags s =
     ZADD_loop cd c key membersWithScores flags 0 None s"

definition ZSCORE ::
  "codec \<Rightarrow> 's Client \<Rightarrow> string \<Rightarrow> string \<Rightarrow> 's
     \<Rightarrow> ((float64 \<times> bool) \<times> error option) \<times> 's" where
  "ZSCORE cd c key member s =
     (case GetItemRequest (ddbClient c)
             \<lparr> gi_ConsistentRead = consistentReads c,
               gi_Key = keyDef_toAV \<lparr> pk = key, sk = member \<rparr>,
               gi_ProjectionExpression = Some [attr_sk2],
               gi_TableName = table c \<rparr> s of
        (Inl err, s') \<Rightarrow> (((Finite 0, False), Some err), s')
      | (Inr it, s') \<Rightarrow>
          if it \<noteq> [] then (((Float64 (lexToFloat cd (getS it attr_sk2)), True), None), s')
          else (((Finite 0, False), None), s'))"

text \<open>
  The key condition of \<open>_zGeneralCount\<close>: the partition, and the bounds that are not
  the empty string.
\<close>

definition countConditions :: "string \<Rightarrow> string \<Rightarrow> string \<Rightarrow> attr \<Rightarrow> cond list" where
  "countConditions key min' max' attribute =
     [Equals attr_pk (S key)] @
     (if min' \<noteq> [] \<and> max' \<noteq> [] then [Between attribute (S min') (S max')] else []) @
     (if min' \<noteq> [] \<and> \<not> (min' \<noteq> [] \<and> max' \<noteq> []) then [GreaterEq attribute (S min')] else []) @
     (if max' \<noteq> [] \<and> \<not> (min' \<noteq> [] \<and> max' \<noteq> []) then [LessEq attribute (S max')] else [])"

definition indexFor :: "attr \<Rightarrow> attr option" where
  "indexFor attribute = (if attribute = attr_sk2 then Some attr_sk2 else None)"

text \<open>
  The loop \<open>for hasMoreResults\<close> runs as long as the store hands out a continuation
  key, so it need not end: the result is \<open>None\<close> when it does not.
\<close>

partial_function (option) zGeneralCount_loop ::
  "'s Client \<Rightarrow> cond list \<Rightarrow> attr option \<Rightarrow> int \<Rightarrow> item \<Rightarrow> 's
     \<Rightarrow> ((int \<times> error option) \<times> 's) option" where
  "zGeneralCount_loop c conds indexName count lastEvaluatedKey s =
     (case QueryRequest (ddbClient c)
             \<lparr> q_ConsistentRead = consistentReads c,
               q_ExclusiveStartKey = lastEvaluatedKey,
               q_IndexName = indexName,
               q_KeyConditionExpression = conds,
               q_Limit = None,
               q_ScanIndexForward = True,
               q_Select = SelectCount,
               q_TableName = table c \<rparr> s of
        (Inl err, s') \<Rightarrow> Some ((count, Some err), s')
      | (Inr resp, s') \<Rightarrow>
          if LastEvaluatedKey resp \<noteq> []
          then zGeneralCount_loop c conds indexName (wrap64 (count + Count resp))
                 (LastEvaluatedKey resp) s'
          else Some ((wrap64 (count + Count resp), None), s'))"

declare zGeneralCount_loop.simps [code]

definition priv_zGeneralCount ::
  "'s Client \<Rightarrow> string \<Rightarrow> string \<Rightarrow> string \<Rightarrow> attr \<Rightarrow> 's
     \<Rightarrow> ((int \<times> error option) \<times> 's) option" where
  "priv_zGeneralCount c key min' max' attribute s =
     zGeneralCount_loop c (countConditions key min' max' attribute) (indexFor attribute) 0 [] s"

text \<open>Lifting a result that cannot panic.\<close>

definition returned :: "(('a \<times> error option) \<times> 's) option \<Rightarrow> ('a outcome \<times> 's) option" where
  "returned r = map_option (\<lambda>((v, err), s). (Returned v err, s)) r"

definition ZCOUNT ::
  "codec \<Rightarrow> 's Client \<Rightarrow> string \<Rightarrow> float64 \<Rightarrow> float64 \<Rightarrow> 's \<Rightarrow> (int outcome \<times> 's) option" where
  "ZCOUNT cd c key minScore maxScore s =
     (case NewFloat minScore of
        Inl p \<Rightarrow> Some (Panicked p, s)
      | Inr bmin \<Rightarrow>
          (case NewFloat maxScore of
             Inl p \<Rightarrow> Some (Panicked p, s)
           | Inr bmax \<Rightarrow>
               returned (priv_zGeneralCount c key (floatToLex cd bmin) (floatToLex cd bmax)
                           attr_sk2 s)))"

text \<open>
  The retry loop of \<open>ZINCRBY\<close>. \<open>newScore\<close> is the named result: it keeps the value
  of the last attempt when a later read fails.
\<close>

function ZINCRBY_loop ::
  "codec \<Rightarrow> 's Client \<Rightarrow> string \<Rightarrow> string \<Rightarrow> float64 \<Rightarrow> float64 \<Rightarrow> int \<Rightarrow> 's
     \<Rightarrow> float64 outcome \<times> 's" where
  "ZINCRBY_loop cd c key member delta newScore tries s =
     (if tries < 3 then
        (case ZSCORE cd c key member s of
           (((oldScore, ok), Some err), s1) \<Rightarrow> (Returned newScore (Some err), s1)
         | (((oldScore, ok), None), s1) \<Rightarrow>
             (case NewFloat (fadd oldScore delta) of
                Inl p \<Rightarrow> (Panicked p, s1)
              | Inr bnew \<Rightarrow>
                  (case (if ok then
                           (case NewFloat oldScore of
                              Inl p \<Rightarrow> Inl p
                            | Inr bold \<Rightarrow> Inr [Equals attr_sk2 (S (floatToLex cd bold))])
                         else Inr []) of
                     Inl p \<Rightarrow> (Panicked p, s1)
                   | Inr conds \<Rightarrow>
                       (case UpdateItemRequest (ddbClient c)
                               \<lparr> ui_ConditionExpression = conds,
                                 ui_Key = keyDef_toAV \<lparr> pk = key, sk = member \<rparr>,
                                 ui_TableName = table c,
                                 ui_UpdateExpression = [(attr_sk2, S (floatToLex cd bnew))] \<rparr> s1 of
                          (err, s2) \<Rightarrow>
                            if conditionFailureError err
                            then ZINCRBY_loop cd c key member delta (fadd oldScore delta)
                                   (tries + 1) s2
                            else (Returned (fadd oldScore delta) err, s2)))))
      else (Returned newScore
              (Some (Errorf (''too much contention on '' @ key @ '' / '' @ member))), s))"
  by pat_completeness auto
termination
  by (relation "measure (\<lambda>(cd, c, key, member, delta, newScore, tries, s). nat (3 - tries))") auto

definition ZINCRBY ::
  "codec \<Rightarrow> 's Client \<Rightarrow> string \<Rightarrow> string \<Rightarrow> float64 \<Rightarrow> 's \<Rightarrow> float64 outcome \<times> 's" where
  "ZINCRBY cd c key member delta s = ZINCRBY_loop cd c key member delta (Finite 0) 0 s"

text \<open>
  Modelled from the spec: \<open>parseItem\<close>, defined outside the files at hand, reads the
  member name \<open>sk\<close> and the encoded score \<open>sk2\<close> of an item.
\<close>

record parsedItem =
  pi_sk :: string
  pi_sk2 :: string

definition parseItem :: "item \<Rightarrow> parsedItem" where
  "parseItem it = \<lparr> pi_sk = getS it attr_sk, pi_sk2 = getS it attr_sk2 \<rparr>"

text \<open>
  The loop over the items of one page: the state is the map, \<open>remainingCount\<close> and
  \<open>index\<close>.
\<close>

fun zGeneralRange_items ::
  "codec \<Rightarrow> int \<Rightarrow> floatMap \<times> int \<times> int \<Rightarrow> item list \<Rightarrow> floatMap \<times> int \<times> int" where
  "zGeneralRange_items cd offset (membersWithScores, remainingCount, index) [] =
     (membersWithScores, remainingCount, index)"
| "zGeneralRange_items cd offset (membersWithScores, remainingCount, index) (it # items) =
     (if index \<ge> offset then
        zGeneralRange_items cd offset
          (AList.update (pi_sk (parseItem it))
             (Float64 (lexToFloat cd (pi_sk2 (parseItem it)))) membersWithScores,
           wrap64 (remainingCount - 1), wrap64 (index + 1)) items
      else
        zGeneralRange_items cd offset
          (membersWithScores, remainingCount, wrap64 (index + 1)) items)"

definition rangeConditions :: "string \<Rightarrow> string \<Rightarrow> string \<Rightarrow> attr \<Rightarrow> cond list" where
  "rangeConditions key start stop attribute =
     [Equals attr_pk (S key)] @
     (if start \<noteq> [] \<and> stop \<noteq> [] then [Between attribute (S start) (S stop)]
      else if start \<noteq> [] then [GreaterEq attribute (S start)]
      else if stop \<noteq> [] then [LessEq attribute (S stop)]
      else [])"

definition queryLimit :: "int \<Rightarrow> int \<Rightarrow> int \<Rightarrow> int option" where
  "queryLimit remainingCount offset index =
     (if remainingCount > 0 then Some (wrap64 (wrap64 (remainingCount + offset) - index))
      else None)"

partial_function (option) zGeneralRange_loop ::
  "codec \<Rightarrow> 's Client \<Rightarrow> string \<Rightarrow> string \<Rightarrow> string \<Rightarrow> int \<Rightarrow> bool \<Rightarrow> attr
     \<Rightarrow> floatMap \<Rightarrow> int \<Rightarrow> int \<Rightarrow> item \<Rightarrow> 's
     \<Rightarrow> ((floatMap \<times> error option) \<times> 's) option" where
  "zGeneralRange_loop cd c key start stop offset forward attribute
     membersWithScores index remainingCount lastKey s =
     (case QueryRequest (ddbClient c)
             \<lparr> q_ConsistentRead = consistentReads c,
               q_ExclusiveStartKey = lastKey,
               q_IndexName = indexFor attribute,
               q_KeyConditionExpression = rangeConditions key start stop attribute,
               q_Limit = queryLimit remainingCount offset index,
               q_ScanIndexForward = forward,
               q_Select = SelectAll,
               q_TableName = table c \<rparr> s of
        (Inl err, s') \<Rightarrow> Some ((membersWithScores, Some err), s')
      | (Inr resp, s') \<Rightarrow>
          (case zGeneralRange_items cd offset (membersWithScores, remainingCount, index)
                  (Items resp) of
             (membersWithScores', remainingCount', index') \<Rightarrow>
               if LastEvaluatedKey resp \<noteq> [] \<and> remainingCount' > 0
               then zGeneralRange_loop cd c key start stop offset forward attribute
                      membersWithScores' index' remainingCount' (LastEvaluatedKey resp) s'
               else Some ((membersWithScores', None), s')))"

declare zGeneralRange_loop.simps [code]

definition priv_zGeneralRange ::
  "codec \<Rightarrow> 's Client \<Rightarrow> string \<Rightarrow> string \<Rightarrow> string \<Rightarrow> int \<Rightarrow> int \<Rightarrow> bool \<Rightarrow> attr \<Rightarrow> 's
     \<Rightarrow> ((floatMap \<times> error option) \<times> 's) option" where
  "priv_zGeneralRange cd c key start stop offset count forward attribute s =
     zGeneralRange_loop cd c key start stop offset forward attribute [] 0 count [] s"

definition floatValues :: "floatMap \<Rightarrow> float64 list" where
  "floatValues floatValuedMap = map snd floatValuedMap"

text \<open>
  In the second branch the error return hands back the named result
  \<open>membersWithScores\<close>, still nil; indexing the empty slice of values panics.
\<close>

definition priv_zrange ::
  "codec \<Rightarrow> 's Client \<Rightarrow> string \<Rightarrow> int \<Rightarrow> int \<Rightarrow> bool \<Rightarrow> 's
     \<Rightarrow> (floatMap outcome \<times> 's) option" where
  "priv_zrange cd c key start stop forward s =
     (if start < 0 \<and> stop < 0 then
        returned (priv_zGeneralRange cd c key [] [] (wrap64 (wrap64 (- stop) - 1))
                    (wrap64 (- start)) (\<not> forward) attr_sk2 s)
      else if start > 0 \<and> stop < 0 then
        (case priv_zGeneralRange cd c key [] [] (wrap64 (wrap64 (- stop) - 1)) 1
                (\<not> forward) attr_sk2 s of
           None \<Rightarrow> None
         | Some ((lastScore, Some err), s') \<Rightarrow> Some (Returned [] (Some err), s')
         | Some ((lastScore, None), s') \<Rightarrow>
             (case floatValues lastScore of
                [] \<Rightarrow> Some (Panicked IndexOutOfRange, s')
              | v # _ \<Rightarrow>
                  (case NewFloat v of
                     Inl p \<Rightarrow> Some (Panicked p, s')
                   | Inr b \<Rightarrow>
                       returned (priv_zGeneralRange cd c key [] (floatToLex cd b) start 0
                                   forward attr_sk2 s'))))
      else
        returned (priv_zGeneralRange cd c key [] [] start (wrap64 (wrap64 (stop - start) + 1))
                    forward attr_sk2 s))"

definition ZRANGE ::
  "codec \<Rightarrow> 's Client \<Rightarrow> string \<Rightarrow> int \<Rightarrow> int \<Rightarrow> 's \<Rightarrow> (floatMap outcome \<times> 's) option" where
  "ZRANGE cd c key start stop s = priv_zrange cd c key start stop True s"

definition ZREVRANGE ::
  "codec \<Rightarrow> 's Client \<Rightarrow> string \<Rightarrow> int \<Rightarrow> int \<Rightarrow> 's \<Rightarrow> (floatMap outcome \<times> 's) option" where
  "ZREVRANGE cd c key start stop s = priv_zrange cd c key start stop False s"

definition ZRANGEBYSCORE ::
  "codec \<Rightarrow> 's Client \<Rightarrow> string \<Rightarrow> float64 \<Rightarrow> float64 \<Rightarrow> int \<Rightarrow> int \<Rightarrow> 's
     \<Rightarrow> (floatMap outcome \<times> 's) option" where
  "ZRANGEBYSCORE cd c key min' max' offset count s =
     (case NewFloat min' of
        Inl p \<Rightarrow> Some (Panicked p, s)
      | Inr bmin \<Rightarrow>
          (case NewFloat max' of
             Inl p \<Rightarrow> Some (Panicked p, s)
           | Inr bmax \<Rightarrow>
               returned (priv_zGeneralRange cd c key (floatToLex cd bmin) (floatToLex cd bmax)
                           offset count True attr_sk2 s)))"

text \<open>
  \<open>_zrank\<close>: \<open>ok\<close> and \<open>err\<close> are the named results, assigned by the score lookup; the
  rank stays 0 unless the count succeeds.
\<close>

definition priv_zrank ::
  "codec \<Rightarrow> 's Client \<Rightarrow> string \<Rightarrow> string \<Rightarrow> bool \<Rightarrow> 's
     \<Rightarrow> ((int \<times> bool) outcome \<times> 's) option" where
  "priv_zrank cd c key member forward s =
     (case ZSCORE cd c key member s of
        (((score, ok), err), s1) \<Rightarrow>
          if err \<noteq> None \<or> \<not> ok then Some (Returned (0, ok) err, s1)
          else
            (case NewFloat score of
               Inl p \<Rightarrow> Some (Panicked p, s1)
             | Inr b \<Rightarrow>
                 (case (if forward
                        then priv_zGeneralCount c key [] (floatToLex cd b) attr_sk2 s1
                        else priv_zGeneralCount c key (floatToLex cd b) [] attr_sk2 s1) of
                    None \<Rightarrow> None
                  | Some ((count, err'), s2) \<Rightarrow>
                      Some (Returned ((if err' = None then wrap64 (count - 1) else 0), ok) err',
                            s2))))"

definition ZRANK ::
  "codec \<Rightarrow> 's Client \<Rightarrow> string \<Rightarrow> string \<Rightarrow> 's \<Rightarrow> ((int \<times> bool) outcome \<times> 's) option" where
  "ZRANK cd c key member s = priv_zrank cd c key member True s"

definition ZREVRANK ::
  "codec \<Rightarrow> 's Client \<Rightarrow> string \<Rightarrow> string \<Rightarrow> 's \<Rightarrow> ((int \<times> bool) outcome \<times> 's) option" where
  "ZREVRANK cd c key member s = priv_zrank cd c key member False s"

section \<open>A reference store\<close>

text \<open>
  The store of the specification (section 6), as a list of items with pairwise different
  primary keys: point reads, conditional upserts, and queries over one partition in the
  order of the table's sort key or of a secondary index, with a limit, a direction and
  a continuation key. A response holds at most \<open>cap\<close> items, which stands for the size
  limit of a response page; a limit below 1 is refused.
\<close>

definition itemKey :: "item \<Rightarrow> item" where
  "itemKey it = [(attr_pk, S (getS it attr_pk)), (attr_sk, S (getS it attr_sk))]"

fun av_le :: "attributeValue \<Rightarrow> attributeValue \<Rightarrow> bool" where
  "av_le (S a) (S b) = (a \<le> b)"
| "av_le (N m) (N n) = (m \<le> n)"
| "av_le _ _ = False"

fun holds :: "item \<Rightarrow> cond \<Rightarrow> bool" where
  "holds it (attribute_not_exists a) = (map_of it a = None)"
| "holds it (attribute_exists a) = (map_of it a \<noteq> None)"
| "holds it (Equals a v) = (map_of it a = Some v)"
| "holds it (Between a lo hi) =
     (case map_of it a of None \<Rightarrow> False | Some v \<Rightarrow> av_le lo v \<and> av_le v hi)"
| "holds it (GreaterEq a lo) = (case map_of it a of None \<Rightarrow> False | Some v \<Rightarrow> av_le lo v)"
| "holds it (LessEq a hi) = (case map_of it a of None \<Rightarrow> False | Some v \<Rightarrow> av_le v hi)"

fun condAttr :: "cond \<Rightarrow> attr" where
  "condAttr (attribute_not_exists a) = a"
| "condAttr (attribute_exists a) = a"
| "condAttr (Equals a v) = a"
| "condAttr (Between a lo hi) = a"
| "condAttr (GreaterEq a lo) = a"
| "condAttr (LessEq a hi) = a"

definition ddb_GetItem :: "GetItemInput \<Rightarrow> item list \<Rightarrow> (error + item) \<times> item list" where
  "ddb_GetItem inp tbl =
     (case find (\<lambda>it. itemKey it = gi_Key inp) tbl of
        None \<Rightarrow> (Inr [], tbl)
      | Some it \<Rightarrow>
          (Inr (case gi_ProjectionExpression inp of
                  None \<Rightarrow> it
                | Some as \<Rightarrow> filter (\<lambda>av. fst av \<in> set as) it), tbl))"

definition ddb_UpdateItem :: "UpdateItemInput \<Rightarrow> item list \<Rightarrow> error option \<times> item list" where
  "ddb_UpdateItem inp tbl =
     (let old = (case find (\<lambda>it. itemKey it = ui_Key inp) tbl of None \<Rightarrow> [] | Some it \<Rightarrow> it)
      in if \<not> list_all (holds old) (ui_ConditionExpression inp)
         then (Some ConditionalCheckFailedException, tbl)
         else
           (let new = fold (\<lambda>av it. AList.update (fst av) (snd av) it) (ui_UpdateExpression inp)
                        (if old = [] then ui_Key inp else old)
            in (None,
                if old = [] then tbl @ [new]
                else map (\<lambda>it. if itemKey it = ui_Key inp then new else it) tbl)))"

text \<open>
  The position of an item in an index: the value of the sort attribute, then the member
  name. Within one index all values have one type, strings in byte order or numbers.
\<close>

fun ordKey :: "attributeValue \<Rightarrow> nat \<times> string" where
  "ordKey (S x) = (0, x)"
| "ordKey (N n) = (n, [])"

definition indexKey :: "attr \<Rightarrow> item \<Rightarrow> (nat \<times> string) \<times> string" where
  "indexKey a it =
     ((case map_of it a of None \<Rightarrow> (0, []) | Some v \<Rightarrow> ordKey v), getS it attr_sk)"

definition sortAttr :: "QueryInput \<Rightarrow> attr" where
  "sortAttr inp = (case q_IndexName inp of None \<Rightarrow> attr_sk | Some a \<Rightarrow> a)"

text \<open>The items a query ranges over, in the order of the scan.\<close>

definition selected :: "attr \<Rightarrow> cond list \<Rightarrow> bool \<Rightarrow> item list \<Rightarrow> item list" where
  "selected a conds forward tbl =
     filter (\<lambda>it. list_all (holds it) conds)
       (if forward then sort_key (indexKey a) (filter (\<lambda>it. map_of it a \<noteq> None) tbl)
        else rev (sort_key (indexKey a) (filter (\<lambda>it. map_of it a \<noteq> None) tbl)))"

text \<open>Where a query resumes: strictly after the continuation key, in scan order.\<close>

definition resume :: "QueryInput \<Rightarrow> item list \<Rightarrow> item list" where
  "resume inp xs =
     (if q_ExclusiveStartKey inp = [] then xs
      else filter (\<lambda>it. if q_ScanIndexForward inp
                        then indexKey (sortAttr inp) (q_ExclusiveStartKey inp)
                               < indexKey (sortAttr inp) it
                        else indexKey (sortAttr inp) it
                               < indexKey (sortAttr inp) (q_ExclusiveStartKey inp)) xs)"

definition lastEvaluated :: "attr \<Rightarrow> item list \<Rightarrow> item" where
  "lastEvaluated a page =
     (case rev page of
        [] \<Rightarrow> []
      | it # _ \<Rightarrow> filter (\<lambda>av. fst av = attr_pk \<or> fst av = attr_sk \<or> fst av = a) it)"

definition ddb_Query :: "nat \<Rightarrow> QueryInput \<Rightarrow> item list \<Rightarrow> (error + QueryOutput) \<times> item list" where
  "ddb_Query cap inp tbl =
     (if (case q_Limit inp of None \<Rightarrow> False | Some l \<Rightarrow> l < 1)
         \<or> \<not> list_all (\<lambda>cnd. condAttr cnd = attr_pk \<or> condAttr cnd = sortAttr inp)
               (q_KeyConditionExpression inp)
      then (Inl (ServiceError ''ValidationException''), tbl)
      else
        (let rest = resume inp (selected (sortAttr inp) (q_KeyConditionExpression inp)
                                 (q_ScanIndexForward inp) tbl);
             n = (case q_Limit inp of None \<Rightarrow> cap | Some l \<Rightarrow> min (nat l) cap);
             page = take n rest;
             more = (case q_Limit inp of
                       None \<Rightarrow> cap < length rest
                     | Some l \<Rightarrow> if nat l \<le> cap then nat l \<le> length rest
                                 else cap < length rest)
         in (Inr \<lparr> Items = (if q_Select inp = SelectCount then [] else page),
                   Count = int (length page),
                   LastEvaluatedKey = (if more then lastEvaluated (sortAttr inp) page else []) \<rparr>,
             tbl)))"

definition dynamo :: "nat \<Rightarrow> (item list) DynamoDB" where
  "dynamo cap =
     \<lparr> GetItemRequest = ddb_GetItem,
       UpdateItemRequest = ddb_UpdateItem,
       QueryRequest = ddb_Query cap \<rparr>"

subsection \<open>Recording the requests\<close>

text \<open>
  Any store client can be wrapped so that the state also holds the list of the requests
  sent so far, oldest first.
\<close>

datatype request = GetItem GetItemInput | UpdateItem UpdateItemInput | Query QueryInput

definition traced :: "'s DynamoDB \<Rightarrow> (request list \<times> 's) DynamoDB" where
  "traced d =
     \<lparr> GetItemRequest = (\<lambda>inp (reqs, s).
         case GetItemRequest d inp s of (r, s') \<Rightarrow> (r, (reqs @ [GetItem inp], s'))),
       UpdateItemRequest = (\<lambda>inp (reqs, s).
         case UpdateItemRequest d inp s of (r, s') \<Rightarrow> (r, (reqs @ [UpdateItem inp], s'))),
       QueryRequest = (\<lambda>inp (reqs, s).
         case QueryRequest d inp s of (r, s') \<Rightarrow> (r, (reqs @ [Query inp], s'))) \<rparr>"

definition tracedClient :: "'s Client \<Rightarrow> (request list \<times> 's) Client" where
  "tracedClient c =
     \<lparr> ddbClient = traced (ddbClient c), consistentReads = consistentReads c, table = table c \<rparr>"

section \<open>Statements of the specification, and sample data\<close>

text \<open>
  The map that the scan builds from a list of items, visited in order, and the members
  of a collection: the items of the partition that carry a score.
\<close>

definition collect :: "codec \<Rightarrow> item list \<Rightarrow> floatMap \<Rightarrow> floatMap" where
  "collect cd items m =
     fold (\<lambda>it. AList.update (pi_sk (parseItem it))
                  (Float64 (lexToFloat cd (pi_sk2 (parseItem it))))) items m"

definition zsetItems :: "string \<Rightarrow> item list \<Rightarrow> item list" where
  "zsetItems key tbl =
     filter (\<lambda>it. map_of it attr_pk = Some (S key) \<and> map_of it attr_sk2 \<noteq> None) tbl"

text \<open>
  The both-negative rank range as the specification states it: the top-K query in the
  flipped direction that selects the tail positions \<open>start..stop\<close>, that is
  \<open>stop - start + 1\<close> members after skipping \<open>- stop - 1\<close>.
\<close>

definition tailRange_spec ::
  "codec \<Rightarrow> 's Client \<Rightarrow> string \<Rightarrow> int \<Rightarrow> int \<Rightarrow> bool \<Rightarrow> 's
     \<Rightarrow> (floatMap outcome \<times> 's) option" where
  "tailRange_spec cd c key start stop forward s =
     returned (priv_zGeneralRange cd c key [] [] (- stop - 1) (stop - start + 1)
                 (\<not> forward) attr_sk2 s)"

text \<open>
  The rank as the specification states it: the number of members strictly ordered before
  the member in the chosen direction, minus one, or not-found.
\<close>

definition rank_spec :: "string \<Rightarrow> string \<Rightarrow> bool \<Rightarrow> item list \<Rightarrow> int \<times> bool" where
  "rank_spec key member forward tbl =
     (case find (\<lambda>it. itemKey it = keyDef_toAV \<lparr> pk = key, sk = member \<rparr>)
             (zsetItems key tbl) of
        None \<Rightarrow> (0, False)
      | Some me \<Rightarrow>
          (int (length (filter (\<lambda>it. if forward
                                      then indexKey attr_sk2 it < indexKey attr_sk2 me
                                      else indexKey attr_sk2 me < indexKey attr_sk2 it)
                          (zsetItems key tbl))) - 1,
           True))"


text \<open>The limits of the queries in a list of requests.\<close>

fun queryLimits :: "request list \<Rightarrow> int option list" where
  "queryLimits [] = []"
| "queryLimits (Query inp # rs) = q_Limit inp # queryLimits rs"
| "queryLimits (_ # rs) = queryLimits rs"

text \<open>
  A codec for the examples: a finite score that is a non-negative multiple of one half
  is written in unary after the letter f, the infinities are the letters a and z.
\<close>

definition sampleCodec :: codec where
  "sampleCodec =
     \<lparr> floatToLex = (\<lambda>b. case b of
           BigNegInf \<Rightarrow> ''a''
         | BigFinite q \<Rightarrow> CHR ''f'' # replicate (nat \<lfloor>2 * q\<rfloor>) CHR ''i''
         | BigPosInf \<Rightarrow> ''z''),
       lexToFloat = (\<lambda>x. case x of
           [] \<Rightarrow> BigFinite 0
         | ch # r \<Rightarrow>
             if ch = CHR ''a'' then BigNegInf
             else if ch = CHR ''z'' then BigPosInf
             else BigFinite (of_nat (length r) / 2)) \<rparr>"

definition zitem :: "string \<Rightarrow> string \<Rightarrow> rat \<Rightarrow> item" where
  "zitem key member q =
     [(attr_pk, S key), (attr_sk, S member),
      (attr_sk2, S (floatToLex sampleCodec (BigFinite q)))]"


definition fiveMembers :: "item list" where
  "fiveMembers =
     [zitem ''z'' ''m3'' 3, zitem ''z'' ''m1'' 1, zitem ''z'' ''m5'' 5,
      zitem ''z'' ''m2'' 2, zitem ''z'' ''m4'' 4]"

definition sampleClient :: "nat \<Rightarrow> (item list) Client" where
  "sampleClient cap = \<lparr> ddbClient = dynamo cap, consistentReads = True, table = ''redimo'' \<rparr>"



text \<open>A store that serves \<open>n\<close> writes and fails every later one.\<close>

definition failingAfter :: "nat \<Rightarrow> nat \<Rightarrow> (nat \<times> item list) DynamoDB" where
  "failingAfter cap n =
     \<lparr> GetItemRequest = (\<lambda>inp (k, tbl).
         case ddb_GetItem inp tbl of (r, tbl') \<Rightarrow> (r, (k, tbl'))),
       UpdateItemRequest = (\<lambda>inp (k, tbl).
         if k < n then (case ddb_UpdateItem inp tbl of (r, tbl') \<Rightarrow> (r, (Suc k, tbl')))
         else (Some (ServiceError ''InternalServerError''), (k, tbl))),
       QueryRequest = (\<lambda>inp (k, tbl).
         case ddb_Query cap inp tbl of (r, tbl') \<Rightarrow> (r, (k, tbl'))) \<rparr>"

definition clientOf :: "'s DynamoDB \<Rightarrow> 's Client" where
  "clientOf d = \<lparr> ddbClient = d, consistentReads = True, table = ''redimo'' \<rparr>"


text \<open>
  A geometry for the examples, on a line: the cell of a position is the integer part of
  its latitude, the angle between two positions is the difference of their latitudes in
  metres over the radius of the Earth, and one cell with the range 0..99 covers every
  cap.
\<close>

definition sampleS2 :: s2 where
  "sampleS2 =
     \<lparr> CellIDFromLatLng = (\<lambda>l. case Lat l of Finite q \<Rightarrow> nat \<lfloor>q\<rfloor> | _ \<Rightarrow> 0),
       CellLatLng = (\<lambda>n. \<lparr> Lat = Finite (of_nat n), Lon = Finite 0 \<rparr>),
       Distance = (\<lambda>a b. case (Lat a, Lat b) of
           (Finite x, Finite y) \<Rightarrow> fdiv (Finite \<bar>x - y\<bar>) EarthRadiusMeters
         | _ \<Rightarrow> NaN),
       CellUnionBound = (\<lambda>center angle. [0]),
       RangeMin = (\<lambda>cellID. 0),
       RangeMax = (\<lambda>cellID. 99) \<rparr>"

definition geoitem :: "string \<Rightarrow> string \<Rightarrow> nat \<Rightarrow> item" where
  "geoitem key member cellID =
     [(attr_pk, S key), (attr_sk, S member), (attr_skGeoCell, N cellID)]"

definition twoPlaces :: "item list" where
  "twoPlaces = [geoitem ''g'' ''far'' 50, geoitem ''g'' ''near'' 3]"

section \<open>Properties\<close>

lemma GEOADD_loop_count:
  "fst (fst (GEOADD_loop g c key members n s)) = n"
proof (induction members arbitrary: s)
  case Nil
  show ?case by simp
next
  case (Cons m members)
  obtain member location where m: "m = (member, location)" by (cases m)
  show ?case
    unfolding m by (simp add: Cons.IH split: prod.split option.split)
qed

text \<open>
  C8, as the code has it. On every store and for every map of members, in whatever order
  the map is visited, \<open>GEOADD\<close> returns the count 0: the counter is never incremented,
  so the count is 0 on success however many members were written, and 0 beside an error
  as well.
\<close>

theorem GEOADD_count_is_zero:
  "fst (fst (GEOADD g c key members s)) = 0"
  unfolding GEOADD_def by (rule GEOADD_loop_count)

text \<open>
  The statement of C8 takes the count beside an error for the number of writes completed
  before it. On a store that serves one write and fails the second, \<open>GEOADD\<close> of two
  members has written the first and returns the count 0 with the error.
\<close>

theorem GEOADD_count_beside_error_counterexample:
  "GEOADD sampleS2 (clientOf (failingAfter 100 1)) ''g''
     [(''near'', \<lparr> Lat = Finite 3, Lon = Finite 0 \<rparr>),
      (''far'', \<lparr> Lat = Finite 50, Lon = Finite 0 \<rparr>)] (0, [])
     = ((0, Some (ServiceError ''InternalServerError'')), (1, [geoitem ''g'' ''near'' 3]))"
  by code_simp

subsection \<open>Scans that fit one response page\<close>

lemma wrap64_id: "int64 x \<Longrightarrow> wrap64 x = x"
  by (simp add: wrap64_def int64_def)


lemma collect_Nil [simp]: "collect cd [] m = m"
  by (simp add: collect_def)









lemma countConditions_valid:
  "list_all (\<lambda>cnd. condAttr cnd = attr_pk \<or> condAttr cnd = attribute)
     (countConditions key min' max' attribute)"
  by (simp add: countConditions_def)

lemma map_of_filter_key:
  "map_of (filter (\<lambda>av. fst av = a) it) a = map_of it a"
  by (induction it) auto

lemma filter_key_empty:
  "filter (\<lambda>av. fst av = a) it = [] \<longleftrightarrow> map_of it a = None"
  by (induction it) auto

lemma ZSCORE_present:
  assumes "ddbClient c = dynamo cap"
    and "find (\<lambda>it. itemKey it = keyDef_toAV \<lparr> pk = key, sk = member \<rparr>) tbl = Some me"
    and "map_of me attr_sk2 \<noteq> None"
  shows "ZSCORE cd c key member tbl
           = (((Float64 (lexToFloat cd (getS me attr_sk2)), True), None), tbl)"
  using assms
  by (simp add: ZSCORE_def dynamo_def ddb_GetItem_def filter_key_empty getS_def
      map_of_filter_key)

lemma ZSCORE_absent:
  assumes "ddbClient c = dynamo cap"
    and "find (\<lambda>it. itemKey it = keyDef_toAV \<lparr> pk = key, sk = member \<rparr>) tbl = None"
  shows "ZSCORE cd c key member tbl = (((Finite 0, False), None), tbl)"
  using assms by (simp add: ZSCORE_def dynamo_def ddb_GetItem_def)

lemma NewFloat_Float64 [simp]: "NewFloat (Float64 b) = Inr b"
  by (cases b) simp_all

lemma selected_zset:
  "selected attr_sk2 (Equals attr_pk (S key) # conds) forward tbl =
     filter (\<lambda>it. list_all (holds it) conds)
       (if forward then sort_key (indexKey attr_sk2) (zsetItems key tbl)
        else rev (sort_key (indexKey attr_sk2) (zsetItems key tbl)))"
proof -
  let ?A = "\<lambda>it::item. map_of it attr_pk = Some (S key)"
  let ?B = "\<lambda>it. list_all (holds it) conds"
  let ?Q = "\<lambda>it::item. map_of it attr_sk2 \<noteq> None"
  let ?f = "indexKey attr_sk2"
  have z: "zsetItems key tbl = filter ?A (filter ?Q tbl)"
    unfolding zsetItems_def filter_filter by (rule filter_cong) auto
  have split: "filter (\<lambda>it. list_all (holds it) (Equals attr_pk (S key) # conds)) xs
                 = filter ?B (filter ?A xs)" for xs
    unfolding filter_filter by (rule filter_cong) auto
  have fwd: "filter ?A (sort_key ?f (filter ?Q tbl)) = sort_key ?f (zsetItems key tbl)"
    unfolding z by (rule filter_sort)
  have bwd: "filter ?A (rev (sort_key ?f (filter ?Q tbl))) = rev (sort_key ?f (zsetItems key tbl))"
    unfolding rev_filter[symmetric] fwd ..
  show ?thesis
  proof (cases forward)
    case True
    then show ?thesis unfolding selected_def split using fwd by simp
  next
    case False
    then show ?thesis unfolding selected_def split using bwd by simp
  qed
qed

subsection \<open>Paging of the range scan\<close>

text \<open>
  C2. The limit of a page is \<open>remainingCount + offset - index\<close>, and \<open>remainingCount\<close>
  has already been decreased by the items collected: on a page after the offset the items
  seen are subtracted twice. On a store that answers the first query (limit 3) with a page
  of two items and a continuation key, the second query asks for the limit -1, where the
  remaining budget is 3 + 0 - 2 = 1, and the store refuses it. With the count 0 the
  scan stops after the first page although the store announced more: two of the five
  matching members are returned.
\<close>

theorem zGeneralRange_page_limit_failing_input:
  "map_option (\<lambda>(out, (reqs, s)). (out, queryLimits reqs))
     (ZRANGEBYSCORE sampleCodec (tracedClient (sampleClient 2)) ''z'' NegInf PosInf 0 3
        ([], fiveMembers))
   = Some (Returned [(''m1'', Finite 1), (''m2'', Finite 2)]
             (Some (ServiceError ''ValidationException'')),
           [Some 3, Some (- 1)])
   \<and> map_option fst
       (ZRANGEBYSCORE sampleCodec (sampleClient 2) ''z'' NegInf PosInf 0 0 fiveMembers)
     = Some (Returned [(''m1'', Finite 1), (''m2'', Finite 2)] None)"
  by code_simp

subsection \<open>Rank ranges with two negative bounds\<close>

text \<open>
  C5. With both bounds negative \<open>_zrange\<close> flips the direction and skips \<open>- stop - 1\<close>
  members, but asks for \<open>- start\<close> members instead of \<open>stop - start + 1\<close>. On the
  members m1..m5 with the scores 1..5, \<open>ZRANGE(z, -3, -2)\<close> returns m4, m3 and m2, where
  the tail positions -3..-2 hold m3 and m4.
\<close>

theorem zrange_both_negative_failing_input:
  "map_option fst (ZRANGE sampleCodec (sampleClient 100) ''z'' (- 3) (- 2) fiveMembers)
     = Some (Returned [(''m4'', Finite 4), (''m3'', Finite 3), (''m2'', Finite 2)] None)
   \<and> map_option fst
       (tailRange_spec sampleCodec (sampleClient 100) ''z'' (- 3) (- 2) True fiveMembers)
     = Some (Returned [(''m4'', Finite 4), (''m3'', Finite 3)] None)"
  by code_simp

subsection \<open>Scores that are not a number\<close>

lemma fadd_NaN_right: "fadd x NaN = NaN"
  by (cases x) simp_all

lemma traced_UpdateItem:
  "UpdateItemRequest (ddbClient (tracedClient c)) inp (reqs, s) =
     (fst (UpdateItemRequest (ddbClient c) inp s),
      (reqs @ [UpdateItem inp], snd (UpdateItemRequest (ddbClient c) inp s)))"
  by (simp add: tracedClient_def traced_def split: prod.split)

lemma traced_GetItem:
  "GetItemRequest (ddbClient (tracedClient c)) inp (reqs, s) =
     (fst (GetItemRequest (ddbClient c) inp s),
      (reqs @ [GetItem inp], snd (GetItemRequest (ddbClient c) inp s)))"
  by (simp add: tracedClient_def traced_def split: prod.split)

lemma traced_Query:
  "QueryRequest (ddbClient (tracedClient c)) inp (reqs, s) =
     (fst (QueryRequest (ddbClient c) inp s),
      (reqs @ [Query inp], snd (QueryRequest (ddbClient c) inp s)))"
  by (simp add: tracedClient_def traced_def split: prod.split)

lemma traced_fields [simp]:
  "table (tracedClient c) = table c"
  "consistentReads (tracedClient c) = consistentReads c"
  by (simp_all add: tracedClient_def)

lemma ZCOUNT_NaN:
  "minScore = NaN \<or> maxScore = NaN \<Longrightarrow>
   ZCOUNT cd c key minScore maxScore s = Some (Panicked ErrNaN, s)"
  by (cases minScore; cases maxScore) (auto simp: ZCOUNT_def)

lemma ZRANGEBYSCORE_NaN:
  "min' = NaN \<or> max' = NaN \<Longrightarrow>
   ZRANGEBYSCORE cd c key min' max' offset count s = Some (Panicked ErrNaN, s)"
  by (cases min'; cases max') (auto simp: ZRANGEBYSCORE_def)

lemma ZADD_loop_NaN:
  "NaN \<notin> snd ` set pre \<Longrightarrow>
   ZADD_loop cd (tracedClient c) key (pre @ (member, NaN) # post) flags n e0 (reqs, s)
     = (out, (reqs', s')) \<Longrightarrow>
   (out = Panicked ErrNaN \<and> length reqs' = length reqs + length pre) \<or>
   (\<exists>k e. out = Returned k (Some e) \<and> length reqs < length reqs'
      \<and> length reqs' \<le> length reqs + length pre)"
proof (induction pre arbitrary: n e0 reqs s)
  case Nil
  then show ?case by auto
next
  case (Cons a pre)
  obtain m sc where a: "a = (m, sc)" by (cases a)
  from Cons.prems(1) a have sc: "sc \<noteq> NaN" and pre: "NaN \<notin> snd ` set pre" by auto
  from sc obtain b where b: "NewFloat sc = Inr b" by (cases sc) auto
  define inp where "inp =
    \<lparr> ui_ConditionExpression =
        (if has flags IfNotExists then [attribute_not_exists attr_pk] else []) @
        (if has flags IfAlreadyExists then [attribute_exists attr_pk] else []),
      ui_Key = keyDef_toAV \<lparr> pk = key, sk = m \<rparr>,
      ui_TableName = table c,
      ui_UpdateExpression = [(attr_sk2, S (floatToLex cd b))] \<rparr>"
  obtain err s1 where u: "UpdateItemRequest (ddbClient c) inp s = (err, s1)"
    by (cases "UpdateItemRequest (ddbClient c) inp s")
  let ?rest = "pre @ (member, NaN) # post"
  have step:
    "ZADD_loop cd (tracedClient c) key ((a # pre) @ (member, NaN) # post) flags n e0 (reqs, s) =
       (if conditionFailureError err
        then ZADD_loop cd (tracedClient c) key ?rest flags n err (reqs @ [UpdateItem inp], s1)
        else if err \<noteq> None then (Returned n err, (reqs @ [UpdateItem inp], s1))
        else ZADD_loop cd (tracedClient c) key ?rest flags (wrap64 (n + 1)) err
               (reqs @ [UpdateItem inp], s1))"
    unfolding a by (simp add: b traced_UpdateItem inp_def[symmetric] u)
  consider (cf) "conditionFailureError err"
    | (er) "\<not> conditionFailureError err" "err \<noteq> None"
    | (ok) "\<not> conditionFailureError err" "err = None" by blast
  then show ?case
  proof cases
    case cf
    with Cons.prems(2) step
    have "ZADD_loop cd (tracedClient c) key ?rest flags n err (reqs @ [UpdateItem inp], s1)
            = (out, (reqs', s'))"
      by simp
    from Cons.IH[OF pre this] show ?thesis by auto
  next
    case er
    with Cons.prems(2) step have "out = Returned n err" "reqs' = reqs @ [UpdateItem inp]"
      by simp_all
    with er show ?thesis by auto
  next
    case ok
    with Cons.prems(2) step
    have "ZADD_loop cd (tracedClient c) key ?rest flags (wrap64 (n + 1)) err
            (reqs @ [UpdateItem inp], s1) = (out, (reqs', s'))"
      by simp
    from Cons.IH[OF pre this] show ?thesis by auto
  qed
qed

lemma ZADD_NaN:
  assumes "NaN \<notin> snd ` set pre"
  shows "(fst (ZADD cd (tracedClient c) key (pre @ (member, NaN) # post) flags ([], s))
            = Panicked ErrNaN
          \<and> length (fst (snd (ZADD cd (tracedClient c) key (pre @ (member, NaN) # post)
                               flags ([], s)))) = length pre)
       \<or> (\<exists>k e. fst (ZADD cd (tracedClient c) key (pre @ (member, NaN) # post) flags ([], s))
                   = Returned k (Some e)
            \<and> 0 < length (fst (snd (ZADD cd (tracedClient c) key
                                       (pre @ (member, NaN) # post) flags ([], s))))
            \<and> length (fst (snd (ZADD cd (tracedClient c) key (pre @ (member, NaN) # post)
                                   flags ([], s)))) \<le> length pre)"
proof -
  obtain out reqs' s' where
    r: "ZADD_loop cd (tracedClient c) key (pre @ (member, NaN) # post) flags 0 None ([], s)
          = (out, (reqs', s'))"
    by (metis surj_pair)
  from ZADD_loop_NaN[OF assms r] show ?thesis
    unfolding ZADD_def r by simp
qed

lemma ZINCRBY_NaN:
  "ZINCRBY cd (tracedClient c) key member NaN ([], s) = (out, (reqs, s')) \<Longrightarrow>
   (\<exists>inp. reqs = [GetItem inp])
   \<and> (out = Panicked ErrNaN \<or> (\<exists>v e. out = Returned v (Some e)))"
  unfolding ZINCRBY_def
  apply (subst (asm) ZINCRBY_loop.simps)
  apply (auto simp: ZSCORE_def traced_GetItem fadd_NaN_right
              split: prod.splits sum.splits if_splits)
  done

text \<open>
  C4, as the code has it. A score that is not a number is rejected by the panic of
  \<open>big.NewFloat\<close>, at the place where the score is encoded. \<open>ZCOUNT\<close> and
  \<open>ZRANGEBYSCORE\<close> encode their bounds first, so they panic before any request.
  \<open>ZADD\<close> encodes each score when its loop reaches the member: it panics after one
  write request for each member visited earlier, or returns the store's error for one of
  those. \<open>ZINCRBY\<close> first reads the current score: exactly one request, the read, is
  sent, and then the call panics, or returns the error of the read; nothing is written.
\<close>

theorem NaN_score_rejected:
  "(minScore = NaN \<or> maxScore = NaN \<longrightarrow>
      ZCOUNT cd (tracedClient c) key minScore maxScore ([], s)
        = Some (Panicked ErrNaN, ([], s))
      \<and> ZRANGEBYSCORE cd (tracedClient c) key minScore maxScore offset count ([], s)
        = Some (Panicked ErrNaN, ([], s)))
   \<and> (NaN \<notin> snd ` set pre \<longrightarrow>
        (fst (ZADD cd (tracedClient c) key (pre @ (member, NaN) # post) flags ([], s))
           = Panicked ErrNaN
         \<and> length (fst (snd (ZADD cd (tracedClient c) key (pre @ (member, NaN) # post)
                              flags ([], s)))) = length pre)
        \<or> (\<exists>k e. fst (ZADD cd (tracedClient c) key (pre @ (member, NaN) # post) flags ([], s))
                   = Returned k (Some e)
             \<and> 0 < length (fst (snd (ZADD cd (tracedClient c) key
                                        (pre @ (member, NaN) # post) flags ([], s))))
             \<and> length (fst (snd (ZADD cd (tracedClient c) key (pre @ (member, NaN) # post)
                                    flags ([], s)))) \<le> length pre))
   \<and> (\<exists>inp. fst (snd (ZINCRBY cd (tracedClient c) key member' NaN ([], s))) = [GetItem inp])
   \<and> (fst (ZINCRBY cd (tracedClient c) key member' NaN ([], s)) = Panicked ErrNaN
        \<or> (\<exists>v e. fst (ZINCRBY cd (tracedClient c) key member' NaN ([], s))
                   = Returned v (Some e)))"
proof -
  obtain out reqs s' where
    z: "ZINCRBY cd (tracedClient c) key member' NaN ([], s) = (out, (reqs, s'))"
    by (metis surj_pair)
  from ZINCRBY_NaN[OF z] z
  have "(\<exists>inp. fst (snd (ZINCRBY cd (tracedClient c) key member' NaN ([], s))) = [GetItem inp])
   \<and> (fst (ZINCRBY cd (tracedClient c) key member' NaN ([], s)) = Panicked ErrNaN
        \<or> (\<exists>v e. fst (ZINCRBY cd (tracedClient c) key member' NaN ([], s))
                   = Returned v (Some e)))"
    by simp
  then show ?thesis
    using ZCOUNT_NaN[of minScore maxScore cd "tracedClient c" key "([], s)"]
      ZRANGEBYSCORE_NaN[of minScore maxScore cd "tracedClient c" key offset count "([], s)"]
      ZADD_NaN[of pre cd c key member post flags s]
    by blast
qed

theorem NaN_score_rejected_witness:
  "ZCOUNT sampleCodec (tracedClient (sampleClient 100)) ''z'' NaN (Finite 1) ([], fiveMembers)
     = Some (Panicked ErrNaN, ([], fiveMembers))
   \<and> ZRANGEBYSCORE sampleCodec (tracedClient (sampleClient 100)) ''z'' NaN (Finite 1) 0 2
       ([], fiveMembers)
     = Some (Panicked ErrNaN, ([], fiveMembers))
   \<and> NaN \<notin> snd ` set [(''m6'', Finite 6)]
   \<and> fst (ZADD sampleCodec (tracedClient (sampleClient 100)) ''z''
             ([(''m6'', Finite 6)] @ (''m7'', NaN) # []) [] ([], fiveMembers))
       = Panicked ErrNaN
   \<and> length (fst (snd (ZADD sampleCodec (tracedClient (sampleClient 100)) ''z''
                         ([(''m6'', Finite 6)] @ (''m7'', NaN) # []) [] ([], fiveMembers))))
       = 1
   \<and> fst (ZINCRBY sampleCodec (tracedClient (sampleClient 100)) ''z'' ''m1'' NaN
             ([], fiveMembers))
       = Panicked ErrNaN"
proof -
  have z: "fst (ZADD sampleCodec (tracedClient (sampleClient 100)) ''z''
             ([(''m6'', Finite 6)] @ (''m7'', NaN) # []) [] ([], fiveMembers))
       = Panicked ErrNaN"
    by code_simp
  have i: "fst (ZINCRBY sampleCodec (tracedClient (sampleClient 100)) ''z'' ''m1'' NaN
             ([], fiveMembers)) = Panicked ErrNaN"
    by code_simp
  have h: "NaN \<notin> snd ` set [(''m6'', Finite 6)]" by simp
  show ?thesis
    using NaN_score_rejected[where minScore = NaN and maxScore = "Finite 1"
        and cd = sampleCodec and c = "sampleClient 100" and key = "''z''" and s = fiveMembers
        and offset = 0 and count = 2 and pre = "[(''m6'', Finite 6)]" and member = "''m7''"
        and post = "[]" and flags = "[]" and member' = "''m1''"] z i h
    by auto
qed

text \<open>
  The statement of C4 fails for \<open>ZINCRBY\<close>: called with a delta that is not a number,
  it has sent a read request to the store when it panics.
\<close>

theorem NaN_before_any_store_access_counterexample:
  "ZINCRBY sampleCodec (tracedClient (sampleClient 100)) ''z'' ''m1'' NaN ([], fiveMembers)
     = (Panicked ErrNaN,
        ([GetItem \<lparr> gi_ConsistentRead = True,
                    gi_Key = [(attr_pk, S ''z''), (attr_sk, S ''m1'')],
                    gi_ProjectionExpression = Some [attr_sk2],
                    gi_TableName = ''redimo'' \<rparr>],
         fiveMembers))"
  by code_simp

subsection \<open>Radius search\<close>

lemma update_list_all:
  "list_all P al \<Longrightarrow> P (k, v) \<Longrightarrow> list_all P (AList.update k v al)"
  by (induction al) auto

lemma GEORADIUS_items_within:
  "list_all (\<lambda>(member, location). fle (DistanceTo g center location radiusUnit) radius) positions \<Longrightarrow>
   list_all (\<lambda>(member, location). fle (DistanceTo g center location radiusUnit) radius)
     (fst (GEORADIUS_items g center radius radiusUnit (positions, count) items))"
  by (induction items arbitrary: positions count) (simp_all add: update_list_all)

lemma GEORADIUS_pages_within_aux:
  assumes "GEORADIUS_pages g c key center radius radiusUnit cellID positions count cursor s = Some r"
  shows "list_all (\<lambda>(member, location). fle (DistanceTo g center location radiusUnit) radius) positions \<longrightarrow>
   list_all (\<lambda>(member, location). fle (DistanceTo g center location radiusUnit) radius)
     (fst (fst (fst r)))"
  using assms
proof (induct g c key center radius radiusUnit cellID positions count cursor s r
    rule: GEORADIUS_pages.raw_induct[rotated 1, consumes 1])
  case (1 pages g c key center radius radiusUnit cellID positions count cursor s r)
  show ?case
  proof (rule impI)
    assume inv: "list_all (\<lambda>(member, location). fle (DistanceTo g center location radiusUnit) radius) positions"
    show "list_all (\<lambda>(member, location). fle (DistanceTo g center location radiusUnit) radius) (fst (fst (fst r)))"
    proof (cases "0 < count")
      case False
      with 1(2) inv show ?thesis by auto
    next
      case True
      let ?q = "QueryRequest (ddbClient c)
                 \<lparr>q_ConsistentRead = consistentReads c,
                    q_ExclusiveStartKey = cursor,
                    q_IndexName = Some attr_skGeoCell,
                    q_KeyConditionExpression =
                      [Equals attr_pk (S key),
                       Between attr_skGeoCell (N (RangeMin g cellID))
                        (N (RangeMax g cellID))],
                    q_Limit = Some count, q_ScanIndexForward = True,
                    q_Select = SelectAll, q_TableName = table c\<rparr> s"
      obtain res s' where q: "?q = (res, s')" by (cases ?q)
      show ?thesis
      proof (cases res)
        case (Inl err)
        with 1(2) inv True q show ?thesis by auto
      next
        case (Inr resp)
        obtain p' c' where it: "GEORADIUS_items g center radius radiusUnit (positions, count) (Items resp) = (p', c')"
          by (cases "GEORADIUS_items g center radius radiusUnit (positions, count) (Items resp)")
        from GEORADIUS_items_within[OF inv, of count "Items resp"] it
        have p': "list_all (\<lambda>(member, location). fle (DistanceTo g center location radiusUnit) radius) p'"
          by simp
        show ?thesis
        proof (cases "LastEvaluatedKey resp \<noteq> []")
          case True
          with 1(2) \<open>0 < count\<close> q Inr it
          have "pages g c key center radius radiusUnit cellID p' c' (LastEvaluatedKey resp) s' = Some r"
            by simp
          from 1(1)[OF this] p' show ?thesis by simp
        next
          case False
          with 1(2) \<open>0 < count\<close> q Inr it have "r = (((p', c'), None), s')" by simp
          with p' show ?thesis by simp
        qed
      qed
    qed
  qed
qed

lemma GEORADIUS_pages_within:
  assumes "GEORADIUS_pages g c key center radius radiusUnit cellID positions count cursor s = Some r"
    and "list_all (\<lambda>(member, location). fle (DistanceTo g center location radiusUnit) radius) positions"
  shows "list_all (\<lambda>(member, location). fle (DistanceTo g center location radiusUnit) radius)
     (fst (fst (fst r)))"
  using GEORADIUS_pages_within_aux[OF assms(1)] assms(2) by simp

lemma GEORADIUS_cells_within:
  "GEORADIUS_cells g c key center radius radiusUnit cells positions count s = Some r \<Longrightarrow>
   list_all (\<lambda>(member, location). fle (DistanceTo g center location radiusUnit) radius) positions \<Longrightarrow>
   list_all (\<lambda>(member, location). fle (DistanceTo g center location radiusUnit) radius)
     (fst (fst r))"
proof (induction cells arbitrary: positions count s)
  case Nil
  then show ?case by auto
next
  case (Cons cellID cells)
  from Cons.prems(1) obtain p' c' e s' where
    pg: "GEORADIUS_pages g c key center radius radiusUnit cellID positions count [] s = Some (((p', c'), e), s')"
    by (auto split: option.splits)
  from GEORADIUS_pages_within[OF pg Cons.prems(2)]
  have p': "list_all (\<lambda>(member, location). fle (DistanceTo g center location radiusUnit) radius) p'"
    by simp
  show ?case
  proof (cases e)
    case None
    with Cons.prems(1) pg
    have "GEORADIUS_cells g c key center radius radiusUnit cells p' c' s' = Some r" by simp
    from Cons.IH[OF this p'] show ?thesis .
  next
    case (Some err)
    with Cons.prems(1) pg have "r = ((p', Some err), s')" by simp
    with p' show ?thesis by simp
  qed
qed

text \<open>
  C7. On every store, whatever candidates its range queries return, every member in the
  result of \<open>GEORADIUS\<close> is there with a location whose recomputed distance to the
  centre is at most the radius: a candidate beyond the radius is never added, even
  though its cell lies in a covering range.
\<close>

theorem GEORADIUS_keeps_only_members_within_radius:
  "GEORADIUS g c key center radius radiusUnit count s = Some ((positions, err), s') \<Longrightarrow>
   list_all (\<lambda>(member, location). fle (DistanceTo g center location radiusUnit) radius)
     positions"
  unfolding GEORADIUS_def
  using GEORADIUS_cells_within[of g c key center radius radiusUnit _ "[]" count s
      "((positions, err), s')"]
  by simp

text \<open>
  The member far lies in the covering range 0..99 at 50 m from the centre's cell: a
  search of 10 m around latitude 1 returns near alone.
\<close>

theorem GEORADIUS_keeps_only_members_within_radius_witness:
  "GEORADIUS sampleS2 (sampleClient 100) ''g'' \<lparr> Lat = Finite 1, Lon = Finite 0 \<rparr>
     (Finite 10) Meters 5 twoPlaces
     = Some (([(''near'', \<lparr> Lat = Finite 3, Lon = Finite 0 \<rparr>)], None), twoPlaces)
   \<and> list_all (\<lambda>(member, location).
         fle (DistanceTo sampleS2 \<lparr> Lat = Finite 1, Lon = Finite 0 \<rparr> location Meters)
           (Finite 10))
       [(''near'', \<lparr> Lat = Finite 3, Lon = Finite 0 \<rparr>)]"
proof -
  have e: "GEORADIUS sampleS2 (sampleClient 100) ''g'' \<lparr> Lat = Finite 1, Lon = Finite 0 \<rparr>
     (Finite 10) Meters 5 twoPlaces
     = Some (([(''near'', \<lparr> Lat = Finite 3, Lon = Finite 0 \<rparr>)], None), twoPlaces)"
    by code_simp
  from GEORADIUS_keeps_only_members_within_radius[OF e] e show ?thesis by simp
qed

subsection \<open>Radius search around a member\<close>

lemma GEOPOS_absent:
  "GetItemRequest (ddbClient c)
     \<lparr> gi_ConsistentRead = consistentReads c,
       gi_Key = keyDef_toAV \<lparr> pk = key, sk = member \<rparr>,
       gi_ProjectionExpression = None,
       gi_TableName = table c \<rparr> s = (Inr [], s') \<Longrightarrow>
   GEOPOS g c key [member] s = (([], None), s')"
  by (simp add: GEOPOS_def)

text \<open>
  C10. When the store has no item for the member (its read returns the empty item),
  \<open>GEOPOS\<close> returns the empty map without an error, and \<open>GEORADIUSBYMEMBER\<close> is the
  radius search around latitude 0, longitude 0: the absence is not reported.
\<close>

theorem GEORADIUSBYMEMBER_absent_member_searches_around_zero:
  assumes "GetItemRequest (ddbClient c)
             \<lparr> gi_ConsistentRead = consistentReads c,
               gi_Key = keyDef_toAV \<lparr> pk = key, sk = member \<rparr>,
               gi_ProjectionExpression = None,
               gi_TableName = table c \<rparr> s = (Inr [], s')"
  shows "GEOPOS g c key [member] s = (([], None), s')
       \<and> GEORADIUSBYMEMBER g c key member radius radiusUnit count s
         = GEORADIUS g c key \<lparr> Lat = Finite 0, Lon = Finite 0 \<rparr> radius radiusUnit count s'"
  using GEOPOS_absent[OF assms, of g]
  by (simp add: GEORADIUSBYMEMBER_def lookupLocation_def)

theorem GEORADIUSBYMEMBER_absent_member_searches_around_zero_witness:
  "GetItemRequest (ddbClient (sampleClient 100))
     \<lparr> gi_ConsistentRead = consistentReads (sampleClient 100),
       gi_Key = keyDef_toAV \<lparr> pk = ''g'', sk = ''nosuch'' \<rparr>,
       gi_ProjectionExpression = None,
       gi_TableName = table (sampleClient 100) \<rparr> twoPlaces = (Inr [], twoPlaces)
   \<and> GEOPOS sampleS2 (sampleClient 100) ''g'' [''nosuch''] twoPlaces = (([], None), twoPlaces)
   \<and> GEORADIUSBYMEMBER sampleS2 (sampleClient 100) ''g'' ''nosuch'' (Finite 10) Meters 5
       twoPlaces
     = Some (([(''near'', \<lparr> Lat = Finite 3, Lon = Finite 0 \<rparr>)], None), twoPlaces)"
proof -
  have h: "GetItemRequest (ddbClient (sampleClient 100))
     \<lparr> gi_ConsistentRead = consistentReads (sampleClient 100),
       gi_Key = keyDef_toAV \<lparr> pk = ''g'', sk = ''nosuch'' \<rparr>,
       gi_ProjectionExpression = None,
       gi_TableName = table (sampleClient 100) \<rparr> twoPlaces = (Inr [], twoPlaces)"
    by code_simp
  have e: "GEORADIUS sampleS2 (sampleClient 100) ''g'' \<lparr> Lat = Finite 0, Lon = Finite 0 \<rparr>
     (Finite 10) Meters 5 twoPlaces
     = Some (([(''near'', \<lparr> Lat = Finite 3, Lon = Finite 0 \<rparr>)], None), twoPlaces)"
    by code_simp
  from GEORADIUSBYMEMBER_absent_member_searches_around_zero[OF h,
      of sampleS2 "Finite 10" Meters 5] h e
  show ?thesis by simp
qed

subsection \<open>Ranks\<close>

lemma count_selected:
  assumes "bnd \<noteq> []"
  shows "selected attr_sk2 (countConditions key [] bnd attr_sk2) True tbl
           = filter (\<lambda>it. holds it (LessEq attr_sk2 (S bnd)))
               (sort_key (indexKey attr_sk2) (zsetItems key tbl))"
    and "selected attr_sk2 (countConditions key bnd [] attr_sk2) True tbl
           = filter (\<lambda>it. holds it (GreaterEq attr_sk2 (S bnd)))
               (sort_key (indexKey attr_sk2) (zsetItems key tbl))"
  using assms by (simp_all add: countConditions_def selected_zset)

lemma length_filter_sort_key:
  "length (filter P (sort_key f xs)) = length (filter P xs)"
  by (simp add: filter_sort)

lemma map_of_filter_fst:
  "map_of (filter (\<lambda>av. P (fst av)) it) k = (if P k then map_of it k else None)"
  by (induction it) auto

lemma indexKey_key_attributes:
  "indexKey a (filter (\<lambda>av. fst av = attr_pk \<or> fst av = attr_sk \<or> fst av = a) it) = indexKey a it"
  using map_of_filter_fst[of "\<lambda>k. k = attr_pk \<or> k = attr_sk \<or> k = a" it]
  by (simp add: indexKey_def getS_def)

lemma lastEvaluated_last:
  "page \<noteq> [] \<Longrightarrow>
   lastEvaluated a page
     = filter (\<lambda>av. fst av = attr_pk \<or> fst av = attr_sk \<or> fst av = a) (last page)"
  by (cases page rule: rev_cases) (simp_all add: lastEvaluated_def)

lemma lastEvaluated_nonempty:
  assumes "page \<noteq> []" "map_of (last page) a \<noteq> None"
  shows "lastEvaluated a page \<noteq> []"
proof -
  from assms(2) obtain v where "map_of (last page) a = Some v" by auto
  then have "(a, v) \<in> set (last page)" by (rule map_of_SomeD)
  then have "(a, v) \<in> set (filter (\<lambda>av. fst av = attr_pk \<or> fst av = attr_sk \<or> fst av = a) (last page))"
    by simp
  then have "filter (\<lambda>av. fst av = attr_pk \<or> fst av = attr_sk \<or> fst av = a) (last page) \<noteq> []"
    by (metis empty_iff list.set(1))
  then show ?thesis unfolding lastEvaluated_last[OF assms(1)] .
qed

lemma strict_filter_drop:
  assumes s: "sorted_wrt (\<lambda>x y. f x < (f y :: 'b :: linorder)) xs" and m: "0 < m" "m \<le> length xs"
  shows "filter (\<lambda>y. f (xs ! (m - 1)) < f y) xs = drop m xs"
proof -
  have a: "filter (\<lambda>y. f (xs ! (m - 1)) < f y) (take m xs) = []"
  proof -
    have "\<not> f (xs ! (m - 1)) < f y" if "y \<in> set (take m xs)" for y
    proof -
      from that obtain i where i: "i < m" "y = xs ! i"
        using m by (auto simp: in_set_conv_nth)
      show ?thesis
      proof (cases "i = m - 1")
        case True
        with i show ?thesis by simp
      next
        case False
        with i m have "i < m - 1" "m - 1 < length xs" by simp_all
        from sorted_wrt_nth_less[OF s this] i show ?thesis by simp
      qed
    qed
    then show ?thesis by (simp add: filter_empty_conv)
  qed
  have b: "filter (\<lambda>y. f (xs ! (m - 1)) < f y) (drop m xs) = drop m xs"
  proof -
    have "f (xs ! (m - 1)) < f y" if "y \<in> set (drop m xs)" for y
    proof -
      from that obtain j where j: "j < length xs - m" "y = xs ! (m + j)"
        by (auto simp: in_set_conv_nth)
      with m have "m - 1 < m + j" "m + j < length xs" by simp_all
      from sorted_wrt_nth_less[OF s this] j show ?thesis by simp
    qed
    then show ?thesis by (simp add: filter_id_conv)
  qed
  have "filter (\<lambda>y. f (xs ! (m - 1)) < f y) (take m xs @ drop m xs) = drop m xs"
    unfolding filter_append a b by simp
  then show ?thesis by simp
qed


lemma ddb_Query_count_page:
  assumes "sortAttr inp = a" "q_Limit inp = None" "q_Select inp = SelectCount"
    and "list_all (\<lambda>cnd. condAttr cnd = attr_pk \<or> condAttr cnd = a)
           (q_KeyConditionExpression inp)"
    and "rest = resume inp (selected a (q_KeyConditionExpression inp)
                              (q_ScanIndexForward inp) tbl)"
  shows "ddb_Query cap inp tbl =
     (Inr \<lparr> Items = [], Count = int (length (take cap rest)),
             LastEvaluatedKey = (if cap < length rest
                                 then lastEvaluated a (take cap rest) else []) \<rparr>, tbl)"
  using assms by (simp add: ddb_Query_def Let_def)

lemma zGeneralCount_loop_pages:
  assumes c: "ddbClient c = dynamo cap" and cap: "0 < cap"
    and a: "(case idx of None \<Rightarrow> attr_sk | Some x \<Rightarrow> x) = a"
    and valid: "list_all (\<lambda>cnd. condAttr cnd = attr_pk \<or> condAttr cnd = a) conds"
    and sel: "sel = selected a conds True tbl"
    and strict: "sorted_wrt (\<lambda>x y. indexKey a x < indexKey a y) sel"
    and has: "\<forall>it \<in> set sel. map_of it a \<noteq> None"
  shows "n = length rest \<Longrightarrow> rest = drop k sel \<Longrightarrow>
    (if lek = [] then sel else filter (\<lambda>it. indexKey a lek < indexKey a it) sel) = rest \<Longrightarrow>
    0 \<le> count \<Longrightarrow> count + int (length rest) < 2 ^ 63 \<Longrightarrow>
    zGeneralCount_loop c conds idx count lek tbl = Some ((count + int (length rest), None), tbl)"
proof (induction n arbitrary: rest k count lek rule: less_induct)
  case (less n)
  let ?inp = "\<lparr> q_ConsistentRead = consistentReads c,
               q_ExclusiveStartKey = lek,
               q_IndexName = idx,
               q_KeyConditionExpression = conds,
               q_Limit = None,
               q_ScanIndexForward = True,
               q_Select = SelectCount,
               q_TableName = table c \<rparr>"
  have sa: "sortAttr ?inp = a" using a by (simp add: sortAttr_def)
  have rs: "rest = resume ?inp (selected a (q_KeyConditionExpression ?inp)
                              (q_ScanIndexForward ?inp) tbl)"
    using less.prems(3) by (auto simp add: resume_def sa sel[symmetric])
  have q: "QueryRequest (ddbClient c) ?inp tbl =
     (Inr \<lparr> Items = [], Count = int (length (take cap rest)),
             LastEvaluatedKey = (if cap < length rest
                                 then lastEvaluated a (take cap rest) else []) \<rparr>, tbl)"
    unfolding c dynamo_def
    using ddb_Query_count_page[OF sa _ _ _ rs, of cap] valid by simp
  show ?case
  proof (cases "cap < length rest")
    case False
    then have l: "length (take cap rest) = length rest" by simp
    have "int64 (count + int (length rest))" using less.prems(4,5) by (simp add: int64_def)
    then have w: "wrap64 (count + int (length rest)) = count + int (length rest)"
      by (rule wrap64_id)
    show ?thesis
      apply (subst zGeneralCount_loop.simps)
      using False by (simp add: q w)
  next
    case True
    let ?page = "take cap rest"
    let ?lek = "lastEvaluated a ?page"
    have pne: "?page \<noteq> []" using True cap by auto
    have kl: "k + cap < length sel" using True less.prems(2) by simp
    have lastp: "last ?page = sel ! (k + cap - 1)"
    proof -
      have "last ?page = ?page ! (length ?page - 1)" by (rule last_conv_nth[OF pne])
      also have "length ?page = cap" using True by simp
      also have "?page ! (cap - 1) = rest ! (cap - 1)" using cap by simp
      also have "\<dots> = sel ! (k + (cap - 1))" using less.prems(2) kl by simp
      finally show ?thesis using cap by simp
    qed
    have "last ?page \<in> set sel"
      unfolding lastp using kl by simp
    with has have "map_of (last ?page) a \<noteq> None" by blast
    then have lne: "?lek \<noteq> []" by (rule lastEvaluated_nonempty[OF pne])
    have ik: "indexKey a ?lek = indexKey a (sel ! (k + cap - 1))"
      unfolding lastEvaluated_last[OF pne] indexKey_key_attributes lastp ..
    have d: "drop cap rest = drop (k + cap) sel" using less.prems(2) by (simp add: add.commute)
    have m: "0 < k + cap" "k + cap \<le> length sel" using cap kl by simp_all
    have f: "filter (\<lambda>it. indexKey a ?lek < indexKey a it) sel = drop (k + cap) sel"
      unfolding ik by (rule strict_filter_drop[OF strict m])
    have res: "(if ?lek = [] then sel else filter (\<lambda>it. indexKey a ?lek < indexKey a it) sel)
                 = drop cap rest"
      unfolding d f using lne by simp
    have lt: "length (drop cap rest) < n" using less.prems(1) True cap by simp
    have cnt: "0 \<le> count + int cap"
      "count + int cap + int (length (drop cap rest)) < 2 ^ 63"
      using less.prems(4,5) True by simp_all
    have "int64 (count + int cap)" using less.prems(4,5) True by (simp add: int64_def)
    then have w: "wrap64 (count + int cap) = count + int cap" by (rule wrap64_id)
    have rec: "zGeneralCount_loop c conds idx (count + int cap) ?lek tbl
                 = Some ((count + int cap + int (length (drop cap rest)), None), tbl)"
      by (rule less.IH[OF lt refl d res cnt])
    have tot: "count + int cap + int (length (drop cap rest)) = count + int (length rest)"
      using True by simp
    show ?thesis
      apply (subst zGeneralCount_loop.simps)
      using True lne by (simp add: q w rec tot)
  qed
qed


lemma zset_scan_strict:
  assumes "distinct (map (\<lambda>it. getS it attr_sk) (zsetItems key tbl))"
  shows "sorted_wrt (\<lambda>x y. indexKey attr_sk2 x < indexKey attr_sk2 y)
           (filter P (sort_key (indexKey attr_sk2) (zsetItems key tbl)))"
proof -
  let ?f = "indexKey attr_sk2"
  let ?Z = "zsetItems key tbl"
  have "(\<lambda>it. getS it attr_sk) = snd \<circ> ?f" by (auto simp: indexKey_def)
  with assms have "distinct (map (snd \<circ> ?f) ?Z)" by simp
  then have "distinct ?Z" "inj_on (snd \<circ> ?f) (set ?Z)" by (simp_all add: distinct_map)
  then have "distinct (map ?f (sort_key ?f ?Z))"
    by (simp add: distinct_map inj_on_imageI2)
  moreover have "sorted (map ?f (sort_key ?f ?Z))" by (rule sorted_sort_key)
  ultimately have "sorted_wrt (<) (map ?f (sort_key ?f ?Z))"
    by (simp add: strict_sorted_iff)
  then have "sorted_wrt (\<lambda>x y. ?f x < ?f y) (sort_key ?f ?Z)"
    by (simp add: sorted_wrt_map)
  then show ?thesis by (rule sorted_wrt_filter)
qed

lemma zset_scan_has_score:
  "\<forall>it \<in> set (filter P (sort_key (indexKey attr_sk2) (zsetItems key tbl))).
     map_of it attr_sk2 \<noteq> None"
  by (auto simp: zsetItems_def)

lemma zGeneralCount_all_pages:
  assumes c: "ddbClient c = dynamo cap" and cap: "0 < cap"
    and names: "distinct (map (\<lambda>it. getS it attr_sk) (zsetItems key tbl))"
    and size: "length (zsetItems key tbl) < 2 ^ 63"
    and sel: "sel = selected attr_sk2 (countConditions key min' max' attr_sk2) True tbl"
  shows "priv_zGeneralCount c key min' max' attr_sk2 tbl = Some ((int (length sel), None), tbl)"
proof -
  obtain conds where cc: "countConditions key min' max' attr_sk2 = Equals attr_pk (S key) # conds"
    by (simp add: countConditions_def)
  have sz: "sel = filter (\<lambda>it. list_all (holds it) conds)
                    (sort_key (indexKey attr_sk2) (zsetItems key tbl))"
    unfolding sel cc by (simp add: selected_zset)
  have strict: "sorted_wrt (\<lambda>x y. indexKey attr_sk2 x < indexKey attr_sk2 y) sel"
    unfolding sz by (rule zset_scan_strict[OF names])
  have has: "\<forall>it \<in> set sel. map_of it attr_sk2 \<noteq> None"
    unfolding sz by (rule zset_scan_has_score)
  have "length sel \<le> length (zsetItems key tbl)"
    unfolding sz using length_filter_le[of _ "sort_key (indexKey attr_sk2) (zsetItems key tbl)"]
    by simp
  with size have b: "0 + int (length sel) < 2 ^ 63" by simp
  have a: "(case indexFor attr_sk2 of None \<Rightarrow> attr_sk | Some x \<Rightarrow> x) = attr_sk2"
    by (simp add: indexFor_def)
  have "zGeneralCount_loop c (countConditions key min' max' attr_sk2) (indexFor attr_sk2) 0 [] tbl
          = Some ((0 + int (length sel), None), tbl)"
    by (rule zGeneralCount_loop_pages[OF c cap a countConditions_valid sel strict has refl _ _ _ b,
          where k = 0]) simp_all
  then show ?thesis by (simp add: priv_zGeneralCount_def)
qed

lemma priv_zrank_present_all_pages:
  assumes c: "ddbClient c = dynamo cap" and cap: "0 < cap"
    and names: "distinct (map (\<lambda>it. getS it attr_sk) (zsetItems key tbl))"
    and size: "length (zsetItems key tbl) < 2 ^ 63"
    and me: "find (\<lambda>it. itemKey it = keyDef_toAV \<lparr> pk = key, sk = member \<rparr>) tbl = Some me"
    and sc: "map_of me attr_sk2 \<noteq> None"
    and bnd: "bnd = floatToLex cd (lexToFloat cd (getS me attr_sk2))" "bnd \<noteq> []"
  shows "priv_zrank cd c key member forward tbl =
     Some (Returned
             (int (length (filter (\<lambda>it. holds it (if forward then LessEq attr_sk2 (S bnd)
                                                    else GreaterEq attr_sk2 (S bnd)))
                             (zsetItems key tbl))) - 1, True) None, tbl)"
proof -
  let ?P = "\<lambda>it. holds it (if forward then LessEq attr_sk2 (S bnd) else GreaterEq attr_sk2 (S bnd))"
  let ?sel = "filter ?P (sort_key (indexKey attr_sk2) (zsetItems key tbl))"
  have len: "length ?sel = length (filter ?P (zsetItems key tbl))"
    by (rule length_filter_sort_key)
  have le: "length ?sel \<le> length (zsetItems key tbl)"
    unfolding len by (rule length_filter_le)
  have cntF: "priv_zGeneralCount c key [] bnd attr_sk2 tbl = Some ((int (length ?sel), None), tbl)"
    if forward
    using zGeneralCount_all_pages[OF c cap names size count_selected(1)[OF bnd(2), symmetric]] that
    by simp
  have cntB: "priv_zGeneralCount c key bnd [] attr_sk2 tbl = Some ((int (length ?sel), None), tbl)"
    if "\<not> forward"
    using zGeneralCount_all_pages[OF c cap names size count_selected(2)[OF bnd(2), symmetric]] that
    by simp
  have "int64 (int (length ?sel) - 1)" using le size by (simp add: int64_def)
  then have w: "wrap64 (int (length ?sel) - 1) = int (length ?sel) - 1" by (rule wrap64_id)
  show ?thesis
  proof (cases forward)
    case True
    with cntF w len show ?thesis
      unfolding priv_zrank_def ZSCORE_present[OF c me sc]
      by (simp add: bnd(1)[symmetric] length_filter_sort_key)
  next
    case False
    with cntB w len show ?thesis
      unfolding priv_zrank_def ZSCORE_present[OF c me sc]
      by (simp add: bnd(1)[symmetric] length_filter_sort_key)
  qed
qed

lemma priv_zrank_absent:
  assumes c: "ddbClient c = dynamo cap"
    and "find (\<lambda>it. itemKey it = keyDef_toAV \<lparr> pk = key, sk = member \<rparr>) tbl = None"
  shows "priv_zrank cd c key member forward tbl = Some (Returned (0, False) None, tbl)"
  unfolding priv_zrank_def ZSCORE_absent[OF assms] by simp

text \<open>
  C3, as the code has it. On the reference store, whatever the size of its response
  pages, for a collection whose member names are unique: for a member with a score,
  \<open>ZRANK\<close> counts the members whose encoded score is at most the member's own
  re-encoded score, the member included, and returns that count minus one with
  \<open>ok = true\<close>; \<open>ZREVRANK\<close> does the same with the scores at least the member's. For a
  member that is not stored both return rank 0 with \<open>ok = false\<close> and no error.
\<close>

theorem zrank_counts_members_up_to_the_score:
  assumes c: "ddbClient c = dynamo cap" and cap: "0 < cap"
    and names: "distinct (map (\<lambda>it. getS it attr_sk) (zsetItems key tbl))"
    and size: "length (zsetItems key tbl) < 2 ^ 63"
  shows "(find (\<lambda>it. itemKey it = keyDef_toAV \<lparr> pk = key, sk = member \<rparr>) tbl = Some me
          \<and> map_of me attr_sk2 \<noteq> None
          \<and> floatToLex cd (lexToFloat cd (getS me attr_sk2)) \<noteq> [] \<longrightarrow>
            ZRANK cd c key member tbl =
              Some (Returned
                (int (length (filter
                   (\<lambda>it. holds it (LessEq attr_sk2
                      (S (floatToLex cd (lexToFloat cd (getS me attr_sk2))))))
                   (zsetItems key tbl))) - 1, True) None, tbl)
          \<and> ZREVRANK cd c key member tbl =
              Some (Returned
                (int (length (filter
                   (\<lambda>it. holds it (GreaterEq attr_sk2
                      (S (floatToLex cd (lexToFloat cd (getS me attr_sk2))))))
                   (zsetItems key tbl))) - 1, True) None, tbl))
       \<and> (find (\<lambda>it. itemKey it = keyDef_toAV \<lparr> pk = key, sk = absent \<rparr>) tbl = None \<longrightarrow>
            ZRANK cd c key absent tbl = Some (Returned (0, False) None, tbl)
          \<and> ZREVRANK cd c key absent tbl = Some (Returned (0, False) None, tbl))"
proof (intro conjI impI)
  assume a: "find (\<lambda>it. itemKey it = keyDef_toAV \<lparr> pk = key, sk = member \<rparr>) tbl = Some me
          \<and> map_of me attr_sk2 \<noteq> None
          \<and> floatToLex cd (lexToFloat cd (getS me attr_sk2)) \<noteq> []"
  then have me: "find (\<lambda>it. itemKey it = keyDef_toAV \<lparr> pk = key, sk = member \<rparr>) tbl = Some me"
    and sc: "map_of me attr_sk2 \<noteq> None"
    and ne: "floatToLex cd (lexToFloat cd (getS me attr_sk2)) \<noteq> []"
    by simp_all
  show "ZRANK cd c key member tbl =
              Some (Returned
                (int (length (filter
                   (\<lambda>it. holds it (LessEq attr_sk2
                      (S (floatToLex cd (lexToFloat cd (getS me attr_sk2))))))
                   (zsetItems key tbl))) - 1, True) None, tbl)"
    unfolding ZRANK_def
    using priv_zrank_present_all_pages[OF c cap names size me sc refl ne, of True] by simp
  show "ZREVRANK cd c key member tbl =
              Some (Returned
                (int (length (filter
                   (\<lambda>it. holds it (GreaterEq attr_sk2
                      (S (floatToLex cd (lexToFloat cd (getS me attr_sk2))))))
                   (zsetItems key tbl))) - 1, True) None, tbl)"
    unfolding ZREVRANK_def
    using priv_zrank_present_all_pages[OF c cap names size me sc refl ne, of False] by simp
next
  assume a: "find (\<lambda>it. itemKey it = keyDef_toAV \<lparr> pk = key, sk = absent \<rparr>) tbl = None"
  show "ZRANK cd c key absent tbl = Some (Returned (0, False) None, tbl)"
    unfolding ZRANK_def by (rule priv_zrank_absent[OF c a])
  show "ZREVRANK cd c key absent tbl = Some (Returned (0, False) None, tbl)"
    unfolding ZREVRANK_def by (rule priv_zrank_absent[OF c a])
qed

text \<open>
  Among the scores 1..5, on a store whose pages hold two items, the member m3 has three
  members up to its score and three from its score on: rank 2 in both directions.
\<close>

theorem zrank_counts_members_up_to_the_score_witness:
  "ddbClient (sampleClient 2) = dynamo 2 \<and> (0 :: nat) < 2
   \<and> distinct (map (\<lambda>it. getS it attr_sk) (zsetItems ''z'' fiveMembers))
   \<and> length (zsetItems ''z'' fiveMembers) < 2 ^ 63
   \<and> find (\<lambda>it. itemKey it = keyDef_toAV \<lparr> pk = ''z'', sk = ''m3'' \<rparr>) fiveMembers
       = Some (zitem ''z'' ''m3'' 3)
   \<and> map_of (zitem ''z'' ''m3'' 3) attr_sk2 \<noteq> None
   \<and> floatToLex sampleCodec (lexToFloat sampleCodec (getS (zitem ''z'' ''m3'' 3) attr_sk2)) \<noteq> []
   \<and> find (\<lambda>it. itemKey it = keyDef_toAV \<lparr> pk = ''z'', sk = ''nosuch'' \<rparr>) fiveMembers = None
   \<and> ZRANK sampleCodec (sampleClient 2) ''z'' ''m3'' fiveMembers
       = Some (Returned (2, True) None, fiveMembers)
   \<and> ZREVRANK sampleCodec (sampleClient 2) ''z'' ''m3'' fiveMembers
       = Some (Returned (2, True) None, fiveMembers)
   \<and> ZRANK sampleCodec (sampleClient 2) ''z'' ''nosuch'' fiveMembers
       = Some (Returned (0, False) None, fiveMembers)"
proof -
  have c: "ddbClient (sampleClient 2) = dynamo 2" by (simp add: sampleClient_def)
  have cap: "(0 :: nat) < 2" by simp
  have names: "distinct (map (\<lambda>it. getS it attr_sk) (zsetItems ''z'' fiveMembers))"
    by code_simp
  have l5: "length (zsetItems ''z'' fiveMembers) = 5" by code_simp
  have size: "length (zsetItems ''z'' fiveMembers) < 2 ^ 63" unfolding l5 by simp
  have me: "find (\<lambda>it. itemKey it = keyDef_toAV \<lparr> pk = ''z'', sk = ''m3'' \<rparr>) fiveMembers
       = Some (zitem ''z'' ''m3'' 3)" by code_simp
  have sc: "map_of (zitem ''z'' ''m3'' 3) attr_sk2 \<noteq> None" by code_simp
  have ne: "floatToLex sampleCodec (lexToFloat sampleCodec (getS (zitem ''z'' ''m3'' 3) attr_sk2))
              \<noteq> []" by code_simp
  have ab: "find (\<lambda>it. itemKey it = keyDef_toAV \<lparr> pk = ''z'', sk = ''nosuch'' \<rparr>) fiveMembers
              = None" by code_simp
  have n1: "int (length (filter
                   (\<lambda>it. holds it (LessEq attr_sk2
                      (S (floatToLex sampleCodec
                            (lexToFloat sampleCodec (getS (zitem ''z'' ''m3'' 3) attr_sk2))))))
                   (zsetItems ''z'' fiveMembers))) - 1 = 2" by code_simp
  have n2: "int (length (filter
                   (\<lambda>it. holds it (GreaterEq attr_sk2
                      (S (floatToLex sampleCodec
                            (lexToFloat sampleCodec (getS (zitem ''z'' ''m3'' 3) attr_sk2))))))
                   (zsetItems ''z'' fiveMembers))) - 1 = 2" by code_simp
  from zrank_counts_members_up_to_the_score[OF c cap names size, where cd = sampleCodec
      and member = "''m3''" and me = "zitem ''z'' ''m3'' 3" and absent = "''nosuch''"]
    c cap names size me sc ne ab n1 n2
  show ?thesis by simp
qed

text \<open>
  The statement of C3 counts the members strictly before the member and subtracts one:
  for the lowest member m1 that is -1, where the code returns rank 0.
\<close>

theorem zrank_strictly_before_counterexample:
  "map_option fst (ZRANK sampleCodec (sampleClient 100) ''z'' ''m1'' fiveMembers)
     = Some (Returned (0, True) None)
   \<and> rank_spec ''z'' ''m1'' True fiveMembers = (- 1, True)"
  by code_simp

subsection \<open>Rank ranges with a negative stop\<close>















subsection \<open>Increments\<close>




lemma Float64_not_NaN [simp]: "Float64 b \<noteq> NaN"
  by (cases b) simp_all








end
